theory Spec2Isabelle
  imports Main "HOL-Library.Word"
begin

unbundle bit_operations_syntax

section \<open>Exim's GnuTLS glue (tls-gnu.c): a shallow embedding\<close>

text \<open>
  The C code is modelled on an LP64 platform: \<open>int\<close> and \<open>unsigned int\<close> are 32 bits wide,
  \<open>size_t\<close> and \<open>ssize_t\<close> 64 bits.  Calls into the GnuTLS library, the C library and the
  rest of Exim are oracles: each model takes the results of those calls as parameters and
  returns, next to the C return value, the state it leaves behind and a trace of the
  external calls it made.
\<close>

subsection \<open>Return codes\<close>

text \<open>Exim's \<open>OK\<close>, \<open>DEFER\<close> and \<open>FAIL\<close> (macros.h) and the C library's \<open>EOF\<close>.\<close>

definition OK :: int where "OK = 0"
definition DEFER :: int where "DEFER = 1"
definition FAIL :: int where "FAIL = 2"
definition EOF :: int where "EOF = - 1"

definition GNUTLS_E_SUCCESS :: int where "GNUTLS_E_SUCCESS = 0"


subsection \<open>vaguely\_random\_number\<close>

text \<open>
  The bit-counting loop \<open>for (r = max, i = 0; r; ++i) r >>= 1;\<close> on an \<open>unsigned int\<close>.
\<close>

function count_bits :: "32 word \<Rightarrow> int \<Rightarrow> int" where
  "count_bits r i = (if r \<noteq> 0 then count_bits (drop_bit 1 r) (i + 1) else i)"
  by pat_completeness auto
termination
proof (relation "measure (\<lambda>(r, i). unat r)")
  show "wf (measure (\<lambda>(r :: 32 word, i :: int). unat r))" by simp
next
  fix r :: "32 word" and i :: int
  assume "r \<noteq> 0"
  then have "0 < unat r" by (simp add: unat_gt_0)
  then have "unat r div 2 < unat r" by simp
  then show "((drop_bit 1 r, i + 1), (r, i)) \<in> measure (\<lambda>(r, i). unat r)"
    by (simp add: drop_bit_eq_div unat_div)
qed

declare count_bits.simps [simp del]

text \<open>
  The accumulation loop
  \<open>for (p = smallbuf; needed_len; --needed_len, ++p) { r *= 256; r += *p; }\<close>;
  \<open>smallbuf\<close> is given by its bytes, \<open>p\<close> by its offset into it.
\<close>

fun accumulate :: "(nat \<Rightarrow> 8 word) \<Rightarrow> 32 word \<Rightarrow> nat \<Rightarrow> nat \<Rightarrow> 32 word" where
  "accumulate smallbuf r p 0 = r"
| "accumulate smallbuf r p (Suc needed_len) =
     accumulate smallbuf (r * 256 + ucast (smallbuf p)) (Suc p) needed_len"

text \<open>
  \<open>needed_len\<close> as the code computes it: \<open>sizeof(r)\<close>, lowered to the number of octets
  that the bits of the argument \<open>max\<close> (here \<open>mx\<close>) fill.  C's \<open>/\<close> truncates; the dividend is never negative here.
\<close>

definition needed_len :: "32 word \<Rightarrow> int" where
  "needed_len mx =
     (let i = count_bits mx 0;
          i = (i + 7) div 8
      in if i < 4 then i else 4)"

text \<open>
  The entropy source \<open>gnutls_rnd(GNUTLS_RND_NONCE, smallbuf, needed_len)\<close> is an oracle:
  asked for a number of bytes, it answers with its return code and the contents of
  \<open>smallbuf\<close> afterwards.  \<open>vaguely_random_number_fallback\<close> (tls.c) is a parameter too.
  The result carries the list of byte counts requested from \<open>gnutls_rnd\<close>.
\<close>

record rnd_env =
  gnutls_rnd :: "int \<Rightarrow> int \<times> (nat \<Rightarrow> 8 word)"
  vaguely_random_number_fallback :: "32 word \<Rightarrow> 32 word"

definition vaguely_random_number :: "rnd_env \<Rightarrow> 32 word \<Rightarrow> 32 word \<times> int list" where
  "vaguely_random_number env mx =
     (if sint mx \<le> 1 then (0, [])
      else
        let n = needed_len mx;
            (i, smallbuf) = gnutls_rnd env n
        in if i < 0 then (vaguely_random_number_fallback env mx, [n])
           else
             let r = accumulate smallbuf 0 0 (nat n)
             in (r mod mx, [n]))"

text \<open>An entropy source that succeeds and fills the buffer with \<open>0xff\<close> bytes.\<close>

definition rnd_ff :: rnd_env where
  "rnd_ff = \<lparr>gnutls_rnd = (\<lambda>n. (0, (\<lambda>k. 255))), vaguely_random_number_fallback = (\<lambda>m. 0)\<rparr>"


subsection \<open>The state container and the globals it feeds\<close>

datatype peer_verify_requirement = VERIFY_NONE | VERIFY_OPTIONAL | VERIFY_REQUIRED

text \<open>
  \<open>exim_gnutls_state_st\<close>.  Pointers to strings are \<open>string option\<close> (\<open>None\<close> for \<open>NULL\<close>),
  the GnuTLS handles are numbers handed out by the library, \<open>host\<close> is the name of the
  connected host (\<open>None\<close> when running as a server).
\<close>

record exim_gnutls_state =
  session :: "nat option"
  x509_cred :: "nat option"
  priority_cache :: "nat option"
  verify_requirement :: peer_verify_requirement
  fd_in :: int
  fd_out :: int
  peer_cert_verified :: bool
  trigger_sni_changes :: bool
  have_set_peerdn :: bool
  host :: "string option"
  peerdn :: "string option"
  ciphersuite :: "string option"
  received_sni :: "string option"
  tls_certificate :: "string option"
  tls_privatekey :: "string option"
  tls_sni :: "string option"
  tls_verify_certificates :: "string option"
  tls_crl :: "string option"
  tls_require_ciphers :: "string option"
  exp_tls_certificate :: "string option"
  exp_tls_privatekey :: "string option"
  exp_tls_sni :: "string option"
  exp_tls_verify_certificates :: "string option"
  exp_tls_crl :: "string option"
  exp_tls_require_ciphers :: "string option"
  xfer_buffer :: "8 word list"
  xfer_buffer_lwm :: int
  xfer_buffer_hwm :: int
  xfer_eof :: int
  xfer_error :: int

definition exim_gnutls_state_init :: exim_gnutls_state where
  "exim_gnutls_state_init =
     \<lparr>session = None, x509_cred = None, priority_cache = None,
      verify_requirement = VERIFY_NONE, fd_in = - 1, fd_out = - 1,
      peer_cert_verified = False, trigger_sni_changes = False, have_set_peerdn = False,
      host = None, peerdn = None, ciphersuite = None, received_sni = None,
      tls_certificate = None, tls_privatekey = None, tls_sni = None,
      tls_verify_certificates = None, tls_crl = None, tls_require_ciphers = None,
      exp_tls_certificate = None, exp_tls_privatekey = None, exp_tls_sni = None,
      exp_tls_verify_certificates = None, exp_tls_crl = None, exp_tls_require_ciphers = None,
      xfer_buffer = [], xfer_buffer_lwm = 0, xfer_buffer_hwm = 0, xfer_eof = 0,
      xfer_error = 0\<rparr>"

text \<open>
  Which implementation the five \<open>receive_*\<close> function pointers name: the \<open>tls_*\<close>
  functions of this file or the \<open>smtp_*\<close> functions of the plaintext transport.
\<close>

datatype receive_function = Via_tls | Via_smtp

text \<open>What the code says to the log: a fixed text, or a message the library computes.\<close>

datatype log_msg =
    No_msg
  | Text string
  | Gnutls_strerror int
  | Fatal_alert_received
  | Strerror_errno
  | Strerror int

text \<open>The calls into GnuTLS, the C library and Exim that the properties below observe.\<close>

datatype ext_call =
    Cipher_get | Protocol_get_version | Mac_get | Kx_get
  | Certificate_get_peers | Certificate_type_get
  | X509_crt_init | X509_crt_import | X509_crt_get_dn
  | Certificate_verify_peers2
  | Alert_send_fatal_bad_certificate
  | Handshake
  | Record_recv nat
  | Record_send "64 word"
  | Deinit "nat option"
  | Smtp_getc
  | Fclose_smtp_out | Fclose_smtp_in
  | Dh_params_init | Sec_param_to_pk_bits
  | Open_cache | Fstat_cache | Close_cache_fd | Fdopen_cache | Fread_cache | Fclose_cache
  | Dh_params_import_pkcs3
  | Mkstemp | Fchown | Dh_params_generate2 int | Dh_params_export_pkcs3
  | Write_to_fd nat | Close_fd | Rename_cache
  | Certificate_allocate_credentials | Certificate_set_x509_key_file
  | Stat_file string
  | Certificate_set_x509_trust_file | Certificate_set_x509_crl_file
  | Log_write string log_msg "string option"

text \<open>
  The part of the process the session code reads and writes: the current state block
  (\<open>current_global_tls_state\<close> points to \<open>state\<close>), the \<open>tls_*\<close> variables of globals.c
  that publish the session facts (the global \<open>tls_sni\<close> is \<open>tls_sni_var\<close> here, since the
  state block has a member of that name), the \<open>receive_*\<close> pointers, the bytes handed to
  DKIM, the external calls made so far, and what the outside world will answer: the
  results of the coming \<open>gnutls_record_recv\<close> calls and of the coming \<open>smtp_getc\<close> calls.
\<close>

datatype recv_result = Recv_bytes "8 word list" | Recv_error int

record tls_world =
  state :: exim_gnutls_state
  tls_active :: int
  tls_bits :: int
  tls_certificate_verified :: bool
  tls_channelbinding_b64 :: "string option"
  tls_cipher :: "string option"
  tls_peerdn :: "string option"
  tls_sni_var :: "string option"
  receive_getc :: receive_function
  receive_ungetc :: receive_function
  receive_feof :: receive_function
  receive_ferror :: receive_function
  receive_smtp_buffered :: receive_function
  dkim_fed :: "8 word list"
  calls :: "ext_call list"
  recv_pending :: "recv_result list"
  smtp_pending :: "int list"

definition call :: "ext_call \<Rightarrow> tls_world \<Rightarrow> tls_world" where
  "call c w = w\<lparr>calls := calls w @ [c]\<rparr>"

text \<open>
  \<open>tls_error\<close> writes one line to the main log and returns \<open>FAIL\<close> when a host is given
  (client) and \<open>DEFER\<close> when it is not (server).
\<close>

definition tls_error :: "string \<Rightarrow> log_msg \<Rightarrow> string option \<Rightarrow> tls_world \<Rightarrow> int \<times> tls_world" where
  "tls_error prefix msg hst w =
     (case hst of
        Some h \<Rightarrow> (FAIL, call (Log_write prefix msg (Some h)) w)
      | None \<Rightarrow> (DEFER, call (Log_write prefix msg None) w))"

definition GNUTLS_E_FATAL_ALERT_RECEIVED :: int where
  "GNUTLS_E_FATAL_ALERT_RECEIVED = - 12"

definition record_io_error :: "int \<Rightarrow> string \<Rightarrow> tls_world \<Rightarrow> tls_world" where
  "record_io_error rc when w =
     (let msg = (if rc = GNUTLS_E_FATAL_ALERT_RECEIVED then Fatal_alert_received
                 else Gnutls_strerror rc)
      in snd (tls_error when msg (host (state w)) w))"


subsection \<open>peer\_status and verify\_certificate\<close>

text \<open>
  What GnuTLS reports about the session after the handshake.  \<open>certificate_get_peers\<close> is
  \<open>None\<close> for a \<open>NULL\<close> list, else the DER certificates; \<open>certificate_type_get\<close> is \<open>None\<close> for
  \<open>GNUTLS_CRT_X509\<close>, else the name of the other type; \<open>x509_crt_get_dn_size\<close> is the result
  of the sizing call with a \<open>NULL\<close> buffer; \<open>certificate_verify_peers2\<close> is the return code
  and the contents of \<open>verify\<close> after the call (whatever it held before, if GnuTLS did not
  write to it).
\<close>

record peer_engine =
  protocol_get_name :: string
  cipher_suite_get_name :: string
  cipher_get_key_size :: int
  certificate_get_peers :: "string list option"
  certificate_type_get :: "string option"
  x509_crt_init :: int
  x509_crt_import :: int
  x509_crt_get_dn_size :: int
  x509_crt_get_dn :: "int \<times> string"
  certificate_verify_peers2 :: "int \<times> 32 word"

definition GNUTLS_E_SHORT_MEMORY_BUFFER :: int where
  "GNUTLS_E_SHORT_MEMORY_BUFFER = - 51"

definition GNUTLS_CERT_INVALID :: "32 word" where "GNUTLS_CERT_INVALID = 2"
definition GNUTLS_CERT_REVOKED :: "32 word" where "GNUTLS_CERT_REVOKED = 32"

text \<open>
  \<open>%d\<close>, C's \<open>isspace\<close> in the C locale, and \<open>string_format\<close> into a buffer of 256 bytes.
  The key size is cast to \<open>int\<close> and multiplied by 8 in 32 bits.
\<close>

fun string_of_nat :: "nat \<Rightarrow> string" where
  "string_of_nat n =
     (if n < 10 then [char_of (48 + n)]
      else string_of_nat (n div 10) @ [char_of (48 + n mod 10)])"

declare string_of_nat.simps [simp del]

definition string_of_int :: "int \<Rightarrow> string" where
  "string_of_int i = (if i < 0 then CHR ''-'' # string_of_nat (nat (- i)) else string_of_nat (nat i))"

definition isspace :: "char \<Rightarrow> bool" where
  "isspace c = (c = CHR '' '' \<or> ((9 :: nat) \<le> of_char c \<and> of_char c \<le> (13 :: nat)))"

definition format_cipherbuf :: "peer_engine \<Rightarrow> string" where
  "format_cipherbuf eng =
     map (\<lambda>c. if isspace c then CHR ''-'' else c)
       (take 255 (protocol_get_name eng @ '':'' @ cipher_suite_get_name eng @ '':'' @
                  string_of_int (sint (word_of_int (cipher_get_key_size eng) * 8 :: 32 word))))"

text \<open>
  The macro \<open>exim_gnutls_peer_err\<close>: on a GnuTLS error, fail under \<open>VERIFY_REQUIRED\<close> and
  return \<open>OK\<close> otherwise; \<open>None\<close> when \<open>rc\<close> is \<open>GNUTLS_E_SUCCESS\<close> and the code goes on.
\<close>

definition exim_gnutls_peer_err :: "int \<Rightarrow> string \<Rightarrow> tls_world \<Rightarrow> (int \<times> tls_world) option" where
  "exim_gnutls_peer_err rc label w =
     (if rc \<noteq> GNUTLS_E_SUCCESS then
        (if verify_requirement (state w) = VERIFY_REQUIRED
         then Some (tls_error label (Gnutls_strerror rc) (host (state w)) w)
         else Some (OK, w))
      else None)"

definition peer_status :: "peer_engine \<Rightarrow> tls_world \<Rightarrow> int \<times> tls_world" where
  "peer_status eng w0 =
     (if have_set_peerdn (state w0) then (OK, w0)
      else
        let w = w0\<lparr>state := (state w0)\<lparr>have_set_peerdn := True, peerdn := None\<rparr>\<rparr>;
            w = call Kx_get (call Mac_get (call Protocol_get_version (call Cipher_get w)));
            cipherbuf = format_cipherbuf eng;
            w = w\<lparr>state := (state w)\<lparr>ciphersuite := Some cipherbuf\<rparr>\<rparr>;
            w = w\<lparr>tls_cipher := ciphersuite (state w)\<rparr>;
            w = call Certificate_get_peers w
        in if certificate_get_peers eng = None \<or> certificate_get_peers eng = Some [] then
             (if verify_requirement (state w) = VERIFY_REQUIRED
              then tls_error ''certificate verification failed''
                     (Text ''no certificate received from peer'') (host (state w)) w
              else (OK, w))
           else
             let w = call Certificate_type_get w
             in case certificate_type_get eng of
                  Some ctn \<Rightarrow>
                    (if verify_requirement (state w) = VERIFY_REQUIRED
                     then tls_error ''certificate verification not possible, unhandled type''
                            (Text ctn) (host (state w)) w
                     else (OK, w))
                | None \<Rightarrow>
                    let w = call X509_crt_init w
                    in case exim_gnutls_peer_err (x509_crt_init eng)
                              ''gnutls_x509_crt_init (crt)'' w of
                         Some r \<Rightarrow> r
                       | None \<Rightarrow>
                    let w = call X509_crt_import w
                    in case exim_gnutls_peer_err (x509_crt_import eng)
                              ''failed to import certificate [gnutls_x509_crt_import(cert 0)]'' w of
                         Some r \<Rightarrow> r
                       | None \<Rightarrow>
                    let w = call X509_crt_get_dn w
                    in if x509_crt_get_dn_size eng \<noteq> GNUTLS_E_SHORT_MEMORY_BUFFER then
                         (case exim_gnutls_peer_err (x509_crt_get_dn_size eng)
                                 ''getting size for cert DN failed'' w of
                            Some r \<Rightarrow> r
                          | None \<Rightarrow> (FAIL, w))
                       else
                    let w = call X509_crt_get_dn w
                    in case exim_gnutls_peer_err (fst (x509_crt_get_dn eng))
                              ''failed to extract certificate DN [gnutls_x509_crt_get_dn(cert 0)]'' w of
                         Some r \<Rightarrow> r
                       | None \<Rightarrow>
                         (OK, w\<lparr>state := (state w)\<lparr>peerdn := Some (snd (x509_crt_get_dn eng))\<rparr>\<rparr>))"

text \<open>
  \<open>verify_certificate\<close> returns the \<open>BOOL\<close>, the string left in \<open>*error\<close> and the world.
\<close>

definition verify_certificate ::
  "peer_engine \<Rightarrow> tls_world \<Rightarrow> bool \<times> string option \<times> tls_world" where
  "verify_certificate eng w0 =
     (let error = None;
          (rc, w) = peer_status eng w0;
          (rc, verify, error, w) =
             (if rc \<noteq> OK then (rc, GNUTLS_CERT_INVALID, Some ''not supplied'', w)
              else (fst (certificate_verify_peers2 eng), snd (certificate_verify_peers2 eng),
                    error, call Certificate_verify_peers2 w))
      in if rc < 0 \<or> verify AND (GNUTLS_CERT_INVALID OR GNUTLS_CERT_REVOKED) \<noteq> 0 then
           let w = w\<lparr>state := (state w)\<lparr>peer_cert_verified := False\<rparr>\<rparr>;
               error = (if error = None
                        then (if verify AND GNUTLS_CERT_REVOKED \<noteq> 0 then Some ''revoked''
                              else Some ''invalid'')
                        else error)
           in if verify_requirement (state w) = VERIFY_REQUIRED
              then (False, error, call Alert_send_fatal_bad_certificate w)
              else (True, error, w\<lparr>tls_peerdn := peerdn (state w)\<rparr>)
         else
           let w = w\<lparr>state := (state w)\<lparr>peer_cert_verified := True\<rparr>\<rparr>
           in (True, error, w\<lparr>tls_peerdn := peerdn (state w)\<rparr>))"


text \<open>
  A session in which the peer presents no certificate, as GnuTLS reports it: the list of
  peer certificates is \<open>NULL\<close> or empty, and \<open>gnutls_certificate_verify_peers2\<close> on such a
  session answers \<open>GNUTLS_E_NO_CERTIFICATE_FOUND\<close>.
\<close>

definition GNUTLS_E_NO_CERTIFICATE_FOUND :: int where
  "GNUTLS_E_NO_CERTIFICATE_FOUND = - 49"

definition peer_presents_no_certificate :: "peer_engine \<Rightarrow> bool" where
  "peer_presents_no_certificate eng =
     ((certificate_get_peers eng = None \<or> certificate_get_peers eng = Some []) \<and>
      fst (certificate_verify_peers2 eng) = GNUTLS_E_NO_CERTIFICATE_FOUND)"

text \<open>
  Sample data: the process before any session, a server state block under each policy, a
  session without a peer certificate, and one whose certificate GnuTLS finds revoked and
  invalid.
\<close>

definition world_init :: tls_world where
  "world_init =
     \<lparr>state = exim_gnutls_state_init, tls_active = - 1, tls_bits = 0,
      tls_certificate_verified = False, tls_channelbinding_b64 = None, tls_cipher = None,
      tls_peerdn = None, tls_sni_var = None,
      receive_getc = Via_smtp, receive_ungetc = Via_smtp, receive_feof = Via_smtp,
      receive_ferror = Via_smtp, receive_smtp_buffered = Via_smtp,
      dkim_fed = [], calls = [], recv_pending = [], smtp_pending = []\<rparr>"

definition world_policy :: "peer_verify_requirement \<Rightarrow> tls_world" where
  "world_policy v =
     world_init\<lparr>state := exim_gnutls_state_init\<lparr>session := Some 1, verify_requirement := v\<rparr>\<rparr>"

definition engine_no_certificate :: peer_engine where
  "engine_no_certificate =
     \<lparr>protocol_get_name = ''TLS1.0'', cipher_suite_get_name = ''RSA_AES_256_CBC_SHA1'',
      cipher_get_key_size = 32, certificate_get_peers = None, certificate_type_get = None,
      x509_crt_init = 0, x509_crt_import = 0, x509_crt_get_dn_size = - 51,
      x509_crt_get_dn = (0, []), certificate_verify_peers2 = (- 49, 0)\<rparr>"

definition engine_revoked :: peer_engine where
  "engine_revoked =
     \<lparr>protocol_get_name = ''TLS1.0'', cipher_suite_get_name = ''RSA_AES_256_CBC_SHA1'',
      cipher_get_key_size = 32, certificate_get_peers = Some [''der''],
      certificate_type_get = None,
      x509_crt_init = 0, x509_crt_import = 0, x509_crt_get_dn_size = - 51,
      x509_crt_get_dn = (0, ''CN=client.example''), certificate_verify_peers2 = (0, 34)\<rparr>"


subsection \<open>The record layer: tls\_getc and tls\_read\<close>

text \<open>
  \<open>gnutls_record_recv\<close> takes the next of the pending answers; with none left the call
  does not return (\<open>None\<close>).  An answer is the bytes received (none for a zero-length
  read) or a negative error code; \<open>inbytes_of\<close> is the value the call returns and
  \<open>written_by\<close> what it leaves in the buffer handed to it.  The size passed for
  \<open>ssl_xfer_buffer_size\<close> is the length of \<open>xfer_buffer\<close>.  The calls of \<open>alarm\<close> around the
  read are left out.
\<close>

definition gnutls_record_recv :: "nat \<Rightarrow> tls_world \<Rightarrow> (recv_result \<times> tls_world) option" where
  "gnutls_record_recv sz w =
     (case recv_pending w of
        [] \<Rightarrow> None
      | r # rs \<Rightarrow> Some (r, call (Record_recv sz) (w\<lparr>recv_pending := rs\<rparr>)))"

definition inbytes_of :: "recv_result \<Rightarrow> int" where
  "inbytes_of r = (case r of Recv_bytes bs \<Rightarrow> int (length bs) | Recv_error e \<Rightarrow> e)"

definition written_by :: "recv_result \<Rightarrow> 8 word list \<Rightarrow> 8 word list" where
  "written_by r buf = (case r of Recv_bytes bs \<Rightarrow> bs @ drop (length bs) buf | Recv_error e \<Rightarrow> buf)"

text \<open>
  Modelled from the spec: \<open>smtp_getc\<close> (smtp_in.c), the reader of the plaintext transport,
  is not part of this file.  It returns the next raw byte of the underlying transport:
  here the next pending value of the plaintext source, and no value when none is pending.
\<close>

definition smtp_getc :: "tls_world \<Rightarrow> (int \<times> tls_world) option" where
  "smtp_getc w =
     (case smtp_pending w of
        [] \<Rightarrow> None
      | c # cs \<Rightarrow> Some (c, call Smtp_getc (w\<lparr>smtp_pending := cs\<rparr>)))"

definition tls_getc :: "tls_world \<Rightarrow> (int \<times> tls_world) option" where
  "tls_getc w0 =
     (if xfer_buffer_lwm (state w0) \<ge> xfer_buffer_hwm (state w0) then
        (case gnutls_record_recv (length (xfer_buffer (state w0))) w0 of
           None \<Rightarrow> None
         | Some (r, w) \<Rightarrow>
             let inbytes = inbytes_of r;
                 w = w\<lparr>state := (state w)\<lparr>xfer_buffer := written_by r (xfer_buffer (state w))\<rparr>\<rparr>
             in if inbytes = 0 then
                  let w = w\<lparr>receive_getc := Via_smtp, receive_ungetc := Via_smtp,
                             receive_feof := Via_smtp, receive_ferror := Via_smtp,
                             receive_smtp_buffered := Via_smtp\<rparr>;
                      w = call (Deinit (session (state w))) w;
                      w = w\<lparr>state := (state w)\<lparr>session := None\<rparr>\<rparr>;
                      w = w\<lparr>tls_active := - 1, tls_bits := 0, tls_certificate_verified := False,
                             tls_channelbinding_b64 := None, tls_cipher := None,
                             tls_peerdn := None\<rparr>
                  in smtp_getc w
                else if inbytes < 0 then
                  let w = record_io_error inbytes ''recv'' w;
                      w = w\<lparr>state := (state w)\<lparr>xfer_error := 1\<rparr>\<rparr>
                  in Some (EOF, w)
                else
                  let w = w\<lparr>dkim_fed := dkim_fed w @ take (nat inbytes) (xfer_buffer (state w))\<rparr>;
                      w = w\<lparr>state := (state w)\<lparr>xfer_buffer_hwm := inbytes, xfer_buffer_lwm := 0\<rparr>\<rparr>
                  in Some (uint (xfer_buffer (state w) ! nat (xfer_buffer_lwm (state w))),
                           w\<lparr>state := (state w)\<lparr>xfer_buffer_lwm := xfer_buffer_lwm (state w) + 1\<rparr>\<rparr>))
      else
        Some (uint (xfer_buffer (state w0) ! nat (xfer_buffer_lwm (state w0))),
              w0\<lparr>state := (state w0)\<lparr>xfer_buffer_lwm := xfer_buffer_lwm (state w0) + 1\<rparr>\<rparr>))"

text \<open>
  A read through the \<open>receive_getc\<close> pointer, as the callers of the receive functions do
  it, and \<open>n\<close> such reads in a row with the values they return.
\<close>

definition receive_getc_call :: "tls_world \<Rightarrow> (int \<times> tls_world) option" where
  "receive_getc_call w = (case receive_getc w of Via_tls \<Rightarrow> tls_getc w | Via_smtp \<Rightarrow> smtp_getc w)"

fun receive_times :: "nat \<Rightarrow> tls_world \<Rightarrow> (int list \<times> tls_world) option" where
  "receive_times 0 w = Some ([], w)"
| "receive_times (Suc n) w =
     (case receive_getc_call w of
        None \<Rightarrow> None
      | Some (c, w') \<Rightarrow>
          (case receive_times n w' of
             None \<Rightarrow> None
           | Some (cs, w'') \<Rightarrow> Some (c # cs, w'')))"

definition INT_MAX :: int where "INT_MAX = 2147483647"

definition tls_read :: "64 word \<Rightarrow> tls_world \<Rightarrow> (int \<times> 8 word list \<times> tls_world) option" where
  "tls_read len0 w0 =
     (let len = (if uint len0 > INT_MAX then INT_MAX else uint len0)
      in case gnutls_record_recv (nat len) w0 of
           None \<Rightarrow> None
         | Some (r, w) \<Rightarrow>
             let inbytes = inbytes_of r
             in if inbytes > 0 then Some (inbytes, written_by r [], w)
                else if inbytes = 0 then Some (- 1, [], w)
                else Some (- 1, [], record_io_error inbytes ''recv'' w))"


text \<open>
  The worlds the reads below lead to: after one record has been received and read to its
  end, after several, and after the fallback to the plaintext transport.
\<close>

definition after_record :: "8 word list \<Rightarrow> tls_world \<Rightarrow> tls_world" where
  "after_record bs w =
     w\<lparr>state := (state w)\<lparr>xfer_buffer := bs @ drop (length bs) (xfer_buffer (state w)),
                            xfer_buffer_hwm := int (length bs),
                            xfer_buffer_lwm := int (length bs)\<rparr>,
       recv_pending := tl (recv_pending w),
       dkim_fed := dkim_fed w @ bs,
       calls := calls w @ [Record_recv (length (xfer_buffer (state w)))]\<rparr>"

definition after_records :: "8 word list list \<Rightarrow> tls_world \<Rightarrow> tls_world" where
  "after_records rs w = foldl (\<lambda>w bs. after_record bs w) w rs"

definition fallen_back :: "tls_world \<Rightarrow> tls_world" where
  "fallen_back w =
     w\<lparr>receive_getc := Via_smtp, receive_ungetc := Via_smtp, receive_feof := Via_smtp,
       receive_ferror := Via_smtp, receive_smtp_buffered := Via_smtp,
       state := (state w)\<lparr>session := None\<rparr>,
       tls_active := - 1, tls_bits := 0, tls_certificate_verified := False,
       tls_channelbinding_b64 := None, tls_cipher := None, tls_peerdn := None,
       recv_pending := tl (recv_pending w),
       smtp_pending := tl (smtp_pending w),
       calls := calls w @ [Record_recv (length (xfer_buffer (state w))),
                           Deinit (session (state w)), Smtp_getc]\<rparr>"

text \<open>
  A session with two records waiting, then the zero-length read, and plaintext behind it.
\<close>

definition world_two_records :: tls_world where
  "world_two_records =
     (world_policy VERIFY_NONE)
       \<lparr>state := (state (world_policy VERIFY_NONE))\<lparr>xfer_buffer := replicate 8 0\<rparr>,
        tls_active := 5, tls_bits := 256, tls_cipher := Some ''TLS1.0:RSA_AES_256_CBC_SHA1:256'',
        receive_getc := Via_tls, receive_ungetc := Via_tls, receive_feof := Via_tls,
        receive_ferror := Via_tls, receive_smtp_buffered := Via_tls,
        recv_pending := [Recv_bytes [1, 2, 3], Recv_bytes [4], Recv_bytes []],
        smtp_pending := [65, 66]\<rparr>"


subsection \<open>The handshake loop\<close>

definition GNUTLS_E_AGAIN :: int where "GNUTLS_E_AGAIN = - 28"
definition GNUTLS_E_INTERRUPTED :: int where "GNUTLS_E_INTERRUPTED = - 52"

text \<open>
  One call of \<open>gnutls_handshake\<close>: the code it returns, and whether the alarm went off
  while it ran (the handler sets \<open>sigalrm_seen\<close>, which stays set).  The loop
  \<open>do rc = gnutls_handshake(...) while (rc == GNUTLS_E_AGAIN || (rc == GNUTLS_E_INTERRUPTED
  && !sigalrm_seen))\<close> runs over the answers of the coming calls; when they are used up
  with the loop still going, it has not returned (\<open>None\<close>).  It returns the last code, the
  flag, and the answers not used.
\<close>

type_synonym handshake_step = "int \<times> bool"

fun handshake_loop ::
  "handshake_step list \<Rightarrow> bool \<Rightarrow> tls_world \<Rightarrow> (int \<times> bool \<times> handshake_step list \<times> tls_world) option" where
  "handshake_loop [] sigalrm_seen w = None"
| "handshake_loop ((rc, alarm) # rest) sigalrm_seen w =
     (let w = call Handshake w;
          sigalrm_seen = (sigalrm_seen \<or> alarm)
      in if rc = GNUTLS_E_AGAIN \<or> (rc = GNUTLS_E_INTERRUPTED \<and> \<not> sigalrm_seen)
         then handshake_loop rest sigalrm_seen w
         else Some (rc, sigalrm_seen, rest, w))"

text \<open>
  \<open>tls_server_start\<close> and \<open>tls_client_start\<close> from \<open>sigalrm_seen = FALSE\<close> to the end of the
  \<open>if (rc != GNUTLS_E_SUCCESS)\<close> that follows the loop: \<open>Inl\<close> is the value the function
  returns there, \<open>Inr ()\<close> means it goes on to verify the peer.
\<close>

definition tls_server_start_handshake ::
  "handshake_step list \<Rightarrow> tls_world \<Rightarrow> ((int + unit) \<times> tls_world) option" where
  "tls_server_start_handshake script w0 =
     (case handshake_loop script False w0 of
        None \<Rightarrow> None
      | Some (rc, sigalrm_seen, rest, w) \<Rightarrow>
          if rc \<noteq> GNUTLS_E_SUCCESS then
            let w = snd (tls_error ''gnutls_handshake''
                          (if sigalrm_seen then Text ''timed out'' else Gnutls_strerror rc) None w);
                w = (if \<not> sigalrm_seen then call Fclose_smtp_in (call Fclose_smtp_out w) else w)
            in Some (Inl FAIL, w)
          else Some (Inr (), w))"

definition tls_client_start_handshake ::
  "handshake_step list \<Rightarrow> tls_world \<Rightarrow> ((int + unit) \<times> tls_world) option" where
  "tls_client_start_handshake script w0 =
     (case handshake_loop script False w0 of
        None \<Rightarrow> None
      | Some (rc, sigalrm_seen, rest, w) \<Rightarrow>
          if rc \<noteq> GNUTLS_E_SUCCESS then
            (case tls_error ''gnutls_handshake''
                    (if sigalrm_seen then Text ''timed out'' else Gnutls_strerror rc)
                    (host (state w)) w of
               (r, w) \<Rightarrow> Some (Inl r, w))
          else Some (Inr (), w))"

text \<open>
  The steps of a script that the loop retries (\<open>retried\<close>), and the value of \<open>sigalrm_seen\<close>
  after them (\<open>flag_after\<close>).
\<close>

fun retried :: "handshake_step list \<Rightarrow> bool \<Rightarrow> bool" where
  "retried [] seen = True"
| "retried ((rc, alarm) # pre) seen =
     ((rc = GNUTLS_E_AGAIN \<or> (rc = GNUTLS_E_INTERRUPTED \<and> \<not> (seen \<or> alarm))) \<and>
      retried pre (seen \<or> alarm))"

definition flag_after :: "handshake_step list \<Rightarrow> bool \<Rightarrow> bool" where
  "flag_after pre seen = (seen \<or> (\<exists>s \<in> set pre. snd s))"


subsection \<open>tls\_write\<close>

text \<open>
  The loop \<open>while (left > 0)\<close> of \<open>tls_write\<close> over the answers \<open>outs\<close> of the coming
  \<open>gnutls_record_send\<close> calls; with the answers used up and bytes left, the call has not
  returned (\<open>None\<close>).  \<open>left\<close> is a \<open>size_t\<close>, \<open>outbytes\<close> an \<open>ssize_t\<close>.  The loop yields
  \<open>False\<close> where the code returns \<open>-1\<close> from inside it.  \<open>record_io_error\<close> takes no notice of
  its \<open>text\<close> argument, so the closed channel is logged with code 0.
\<close>

fun tls_write_loop :: "int list \<Rightarrow> 64 word \<Rightarrow> tls_world \<Rightarrow> (bool \<times> tls_world) option" where
  "tls_write_loop [] left w = (if left = 0 then Some (True, w) else None)"
| "tls_write_loop (outbytes # outs) left w =
     (if left = 0 then Some (True, w)
      else
        let w = call (Record_send left) w
        in if outbytes < 0 then Some (False, record_io_error outbytes ''send'' w)
           else if outbytes = 0 then Some (False, record_io_error 0 ''send'' w)
           else tls_write_loop outs (left - word_of_int outbytes) w)"

definition tls_write :: "int list \<Rightarrow> 64 word \<Rightarrow> tls_world \<Rightarrow> (int \<times> tls_world) option" where
  "tls_write outs len w =
     (case tls_write_loop outs len w of
        None \<Rightarrow> None
      | Some (False, w') \<Rightarrow> Some (- 1, w')
      | Some (True, w') \<Rightarrow> Some (if uint len > INT_MAX then INT_MAX else uint len, w'))"

text \<open>
  The contract of \<open>gnutls_record_send\<close>: it never reports more bytes than it was asked to
  send.  (Without it \<open>left -= outbytes\<close> wraps around.)
\<close>

fun engine_sane :: "int list \<Rightarrow> 64 word \<Rightarrow> bool" where
  "engine_sane [] left = True"
| "engine_sane (outbytes # outs) left =
     (outbytes \<le> uint left \<and> (0 < outbytes \<longrightarrow> engine_sane outs (left - word_of_int outbytes)))"

text \<open>An engine that takes 2 GiB in records of 16384 bytes.\<close>

definition chunks_2GiB :: "int list" where
  "chunks_2GiB = replicate 131072 16384"


subsection \<open>init\_server\_dh\<close>

text \<open>
  What the library and the file system answer to \<open>init_server_dh\<close>: the return codes of the
  GnuTLS calls, the bit count for \<open>GNUTLS_SEC_PARAM_NORMAL\<close>, the result of opening the cache
  file (\<open>errno\<close> on failure), of \<open>fstat\<close> (\<open>None\<close> on failure, else \<open>S_ISREG\<close> and
  \<open>st_size\<close>), of \<open>fdopen\<close> and \<open>malloc\<close> (whether they succeed), the item count of \<open>fread\<close>,
  and the results of the steps that write a new file.  \<open>Close_cache_fd\<close> and \<open>Fclose_cache\<close>
  are the \<open>close(fd)\<close> and \<open>fclose(fp)\<close> on the cache file, \<open>Close_fd\<close> the \<open>close\<close> of the
  temporary file.
\<close>

datatype open_result = Opened | Open_failed int

definition ENOENT :: int where "ENOENT = 2"

record dh_env =
  dh_params_init :: int
  sec_param_to_pk_bits :: int
  spool_directory :: string
  PATH_MAX :: int
  open_cache :: open_result
  fstat_cache :: "(bool \<times> nat) option"
  fdopen_cache :: bool
  malloc_cache :: bool
  fread_cache :: nat
  dh_params_import_pkcs3 :: int
  mkstemp :: int
  dh_params_generate2 :: int
  dh_params_export_pkcs3_sizing :: "int \<times> nat"
  malloc_export :: bool
  dh_params_export_pkcs3 :: int
  write_params :: nat
  write_newline :: nat
  close_temp :: int
  rename_temp :: int

text \<open>
  The macro \<open>exim_gnutls_err_check\<close>: \<open>if (rc != GNUTLS_E_SUCCESS) return tls_error(...)\<close>;
  \<open>None\<close> when the code goes on.
\<close>

definition exim_gnutls_err_check ::
  "int \<Rightarrow> string \<Rightarrow> string option \<Rightarrow> tls_world \<Rightarrow> (int \<times> tls_world) option" where
  "exim_gnutls_err_check rc label hst w =
     (if rc \<noteq> GNUTLS_E_SUCCESS then Some (tls_error label (Gnutls_strerror rc) hst w) else None)"

text \<open>The block \<open>if (rc < 0) { ... }\<close> of \<open>init_server_dh\<close>, which writes a new cache file.\<close>

definition dh_regenerate :: "dh_env \<Rightarrow> int \<Rightarrow> string \<Rightarrow> tls_world \<Rightarrow> int \<times> tls_world" where
  "dh_regenerate env dh_bits filename w =
     (if PATH_MAX env - int (length filename) < 10
      then tls_error ''Filename too long to generate replacement'' (Text filename) None w
      else
        let w = call Mkstemp w
        in if mkstemp env < 0
           then tls_error ''Unable to open temp file'' Strerror_errno None w
           else
        let w = call Fchown w;
            w = call (Dh_params_generate2 dh_bits) w
        in case exim_gnutls_err_check (dh_params_generate2 env) ''gnutls_dh_params_generate2'' None w of
             Some r \<Rightarrow> r
           | None \<Rightarrow>
        let w = call Dh_params_export_pkcs3 w;
            (rc, sz) = dh_params_export_pkcs3_sizing env
        in case (if rc \<noteq> GNUTLS_E_SHORT_MEMORY_BUFFER
                 then exim_gnutls_err_check rc ''gnutls_dh_params_export_pkcs3(NULL) sizing'' None w
                 else None) of
             Some r \<Rightarrow> r
           | None \<Rightarrow>
        if \<not> malloc_export env
        then tls_error ''memory allocation failed'' Strerror_errno None w
        else
        let w = call Dh_params_export_pkcs3 w
        in case exim_gnutls_err_check (dh_params_export_pkcs3 env)
                  ''gnutls_dh_params_export_pkcs3() real'' None w of
             Some r \<Rightarrow> r
           | None \<Rightarrow>
        let w = call (Write_to_fd sz) w
        in if write_params env \<noteq> sz
           then tls_error ''TLS cache write D-H params failed'' Strerror_errno None w
           else
        let w = call (Write_to_fd 1) w
        in if write_newline env \<noteq> 1
           then tls_error ''TLS cache write D-H params final newline failed'' Strerror_errno None w
           else
        let w = call Close_fd w
        in if close_temp env \<noteq> 0
           then tls_error ''TLS cache write close() failed'' Strerror_errno None w
           else
        let w = call Rename_cache w
        in if rename_temp env < 0
           then tls_error ''failed to rename'' Strerror_errno None w
           else (OK, w))"

definition init_server_dh :: "dh_env \<Rightarrow> tls_world \<Rightarrow> int \<times> tls_world" where
  "init_server_dh env w0 =
     (let w = call Dh_params_init w0
      in case exim_gnutls_err_check (dh_params_init env) ''gnutls_dh_params_init'' None w of
           Some r \<Rightarrow> r
         | None \<Rightarrow>
      let w = call Sec_param_to_pk_bits w;
          dh_bits = sec_param_to_pk_bits env
      in if dh_bits = 0
         then tls_error ''gnutls_sec_param_to_pk_bits() failed'' No_msg None w
         else
      let filename = spool_directory env @ ''/gnutls-params-'' @ string_of_int dh_bits
      in if \<not> int (length filename) < PATH_MAX env
         then tls_error ''overlong filename'' No_msg None w
         else
      let w = call Open_cache w
      in case open_cache env of
           Opened \<Rightarrow>
             let w = call Fstat_cache w
             in (case fstat_cache env of
                   None \<Rightarrow>
                     tls_error ''TLS cache stat failed'' Strerror_errno None (call Close_cache_fd w)
                 | Some (is_reg, st_size) \<Rightarrow>
                     if \<not> is_reg
                     then tls_error ''TLS cache not a file'' No_msg None (call Close_cache_fd w)
                     else
                     let w = call Fdopen_cache w
                     in if \<not> fdopen_cache env
                        then tls_error ''fdopen(TLS cache stat fd) failed'' Strerror_errno None
                               (call Close_cache_fd w)
                        else if \<not> malloc_cache env
                        then tls_error ''malloc failed'' Strerror_errno None (call Fclose_cache w)
                        else
                     let w = call Fread_cache w
                     in if fread_cache env = 0
                        then tls_error ''fread failed'' Strerror_errno None (call Fclose_cache w)
                        else
                     let w = call Fclose_cache w;
                         w = call Dh_params_import_pkcs3 w;
                         rc = dh_params_import_pkcs3 env
                     in case exim_gnutls_err_check rc ''gnutls_dh_params_import_pkcs3'' None w of
                          Some r \<Rightarrow> r
                        | None \<Rightarrow>
                            if rc < 0 then dh_regenerate env dh_bits filename w else (OK, w))
         | Open_failed errno \<Rightarrow>
             if errno = ENOENT then
               let rc = (- 1 :: int)
               in if rc < 0 then dh_regenerate env dh_bits filename w else (OK, w)
             else tls_error ''failed to open for reading'' (Strerror errno) None w)"


text \<open>
  Sample answers: no cache file and every step of writing one succeeds; a cache file of
  length 0; a cache file whose contents GnuTLS cannot decode.
\<close>

definition dh_env_fresh :: dh_env where
  "dh_env_fresh =
     \<lparr>dh_params_init = 0, sec_param_to_pk_bits = 2432, spool_directory = ''/var/spool/exim'',
      PATH_MAX = 4096, open_cache = Open_failed 2, fstat_cache = None, fdopen_cache = False,
      malloc_cache = False, fread_cache = 0, dh_params_import_pkcs3 = 0,
      mkstemp = 7, dh_params_generate2 = 0, dh_params_export_pkcs3_sizing = (- 51, 769),
      malloc_export = True, dh_params_export_pkcs3 = 0, write_params = 769, write_newline = 1,
      close_temp = 0, rename_temp = 0\<rparr>"

definition dh_env_empty_cache :: dh_env where
  "dh_env_empty_cache =
     dh_env_fresh\<lparr>open_cache := Opened, fstat_cache := Some (True, 0), fdopen_cache := True,
                   malloc_cache := True, fread_cache := 0\<rparr>"

definition dh_env_unparsable_cache :: dh_env where
  "dh_env_unparsable_cache =
     dh_env_fresh\<lparr>open_cache := Opened, fstat_cache := Some (True, 769), fdopen_cache := True,
                   malloc_cache := True, fread_cache := 1, dh_params_import_pkcs3 := - 34\<rparr>"

text \<open>
  The conditions the properties speak of: the steps before the cache file is opened
  succeed; the cache file exists and cannot be read; every step of regeneration succeeds;
  the calls a run has added to the trace; and whether any of them is a step of
  regeneration (creating the temporary file, generating or exporting parameters, writing,
  closing or renaming the temporary file).
\<close>

definition cache_filename :: "dh_env \<Rightarrow> string" where
  "cache_filename env =
     spool_directory env @ ''/gnutls-params-'' @ string_of_int (sec_param_to_pk_bits env)"

definition dh_setup_ok :: "dh_env \<Rightarrow> bool" where
  "dh_setup_ok env =
     (dh_params_init env = GNUTLS_E_SUCCESS \<and> sec_param_to_pk_bits env \<noteq> 0 \<and>
      int (length (cache_filename env)) < PATH_MAX env)"

definition cache_unreadable :: "dh_env \<Rightarrow> bool" where
  "cache_unreadable env =
     (open_cache env = Opened \<and>
      (fstat_cache env = None \<or> (\<exists>sz. fstat_cache env = Some (False, sz)) \<or>
       \<not> fdopen_cache env \<or> \<not> malloc_cache env \<or> fread_cache env = 0))"

definition regenerate_ok :: "dh_env \<Rightarrow> bool" where
  "regenerate_ok env =
     (10 \<le> PATH_MAX env - int (length (cache_filename env)) \<and>
      0 \<le> mkstemp env \<and>
      dh_params_generate2 env = GNUTLS_E_SUCCESS \<and>
      (fst (dh_params_export_pkcs3_sizing env) = GNUTLS_E_SHORT_MEMORY_BUFFER \<or>
       fst (dh_params_export_pkcs3_sizing env) = GNUTLS_E_SUCCESS) \<and>
      malloc_export env \<and>
      dh_params_export_pkcs3 env = GNUTLS_E_SUCCESS \<and>
      write_params env = snd (dh_params_export_pkcs3_sizing env) \<and>
      write_newline env = 1 \<and> close_temp env = 0 \<and> 0 \<le> rename_temp env)"

fun regeneration_step :: "ext_call \<Rightarrow> bool" where
  "regeneration_step Mkstemp = True"
| "regeneration_step Fchown = True"
| "regeneration_step (Dh_params_generate2 b) = True"
| "regeneration_step Dh_params_export_pkcs3 = True"
| "regeneration_step (Write_to_fd n) = True"
| "regeneration_step Close_fd = True"
| "regeneration_step Rename_cache = True"
| "regeneration_step c = False"

definition new_calls :: "tls_world \<Rightarrow> tls_world \<Rightarrow> ext_call list" where
  "new_calls w w' = drop (length (calls w)) (calls w')"

definition regenerated :: "tls_world \<Rightarrow> tls_world \<Rightarrow> bool" where
  "regenerated w w' = (filter regeneration_step (new_calls w w') \<noteq> [])"


subsection \<open>tls\_expand\_session\_files\<close>

text \<open>
  What the outside answers to \<open>tls_expand_session_files\<close>: the return code of
  \<open>gnutls_certificate_allocate_credentials\<close> and the handle it stores; \<open>expand_check\<close> (tls.c)
  on a string that is not \<open>NULL\<close>, where \<open>None\<close> stands for \<open>FALSE\<close> and \<open>Some r\<close> for \<open>TRUE\<close>
  with \<open>r\<close> stored as the expansion (\<open>NULL\<close> after a forced failure); the return code of
  loading the certificate and key; \<open>Ustat\<close> on a path (\<open>None\<close> on failure, else \<open>S_ISDIR\<close> and
  \<open>st_size\<close>); and the counts that loading the trust file and the CRL file return.
  \<open>Ustrstr\<close> tells whether the needle occurs; \<open>nonempty\<close> is the test \<open>p && *p\<close>.
\<close>

record expand_env =
  certificate_allocate_credentials :: "int \<times> nat"
  expand_check :: "string \<Rightarrow> string option option"
  certificate_set_x509_key_file :: int
  stat_file :: "string \<Rightarrow> (bool \<times> nat) option"
  certificate_set_x509_trust_file :: int
  certificate_set_x509_crl_file :: int

text \<open>
  Modelled from the spec: \<open>expand_check\<close> (tls.c), which the macro \<open>expand_check_tlsvar\<close>
  calls, is not part of this file.  It expands a configured string through the templating
  collaborator and fails when the expansion fails (unless it was forced to fail); for a
  string that is not configured (\<open>NULL\<close>) it stores \<open>NULL\<close> and succeeds.
\<close>

definition expand_check_tlsvar :: "expand_env \<Rightarrow> string option \<Rightarrow> string option option" where
  "expand_check_tlsvar env v = (case v of None \<Rightarrow> Some None | Some s \<Rightarrow> expand_check env s)"

fun Ustrstr :: "string \<Rightarrow> string \<Rightarrow> bool" where
  "Ustrstr [] needle = (needle = [])"
| "Ustrstr (c # cs) needle = (take (length needle) (c # cs) = needle \<or> Ustrstr cs needle)"

definition nonempty :: "string option \<Rightarrow> bool" where
  "nonempty p = (p \<noteq> None \<and> p \<noteq> Some [])"

definition upd_state :: "(exim_gnutls_state \<Rightarrow> exim_gnutls_state) \<Rightarrow> tls_world \<Rightarrow> tls_world" where
  "upd_state f w = w\<lparr>state := f (state w)\<rparr>"

text \<open>
  \<open>tls_expand_session_files\<close> in three parts, last part first: from \<open>Ustat\<close> to the end
  (\<open>load_trust_store\<close>), the expansion of \<open>tls_verify_certificates\<close> and \<open>tls_crl\<close> before
  it (\<open>expand_verify_inputs\<close>), and the function from its start.

  On a pass with \<open>received_sni\<close> set, the code compares the new expansions of the
  certificate and the key with the saved ones by \<open>Ustrcmp\<close>, outside \<open>DEBUG\<close>; the saved ones
  are the expansions of the pass before for a server and \<open>NULL\<close> otherwise.  \<open>Ustrcmp\<close> on a
  \<open>NULL\<close> pointer dereferences it: the function then does not return (\<open>Inl Null_dereference\<close>).
  \<open>Ustrcmp\<close> here answers whether the strings are equal (the C function returns 0); the
  second comparison runs only when the first finds them equal.  \<open>saved_tls_verify_certificates\<close>
  and \<open>saved_tls_crl\<close> are never read and are left out.
\<close>

datatype crash = Null_dereference

definition Ustrcmp :: "string option \<Rightarrow> string option \<Rightarrow> crash + bool" where
  "Ustrcmp a b =
     (case a of
        None \<Rightarrow> Inl Null_dereference
      | Some x \<Rightarrow> (case b of None \<Rightarrow> Inl Null_dereference | Some y \<Rightarrow> Inr (x = y)))"

definition compare_with_saved ::
  "string option \<Rightarrow> string option \<Rightarrow> tls_world \<Rightarrow> crash + unit" where
  "compare_with_saved saved_tls_certificate saved_tls_privatekey w =
     (if received_sni (state w) \<noteq> None then
        (case Ustrcmp (exp_tls_certificate (state w)) saved_tls_certificate of
           Inl c \<Rightarrow> Inl c
         | Inr same_certificate \<Rightarrow>
             if same_certificate then
               (case Ustrcmp (exp_tls_privatekey (state w)) saved_tls_privatekey of
                  Inl c \<Rightarrow> Inl c
                | Inr same_key \<Rightarrow> Inr ())
             else Inr ())
      else Inr ())"

definition load_trust_store :: "expand_env \<Rightarrow> string \<Rightarrow> tls_world \<Rightarrow> int \<times> tls_world" where
  "load_trust_store env path w0 =
     (let w = call (Stat_file path) w0
      in case stat_file env path of
           None \<Rightarrow>
             (DEFER, call (Log_write ''could not stat (tls_verify_certificates)'' Strerror_errno None) w)
         | Some (is_dir, st_size) \<Rightarrow>
             if is_dir then
               (DEFER, call (Log_write ''tls_verify_certificates is a directory'' (Text path) None) w)
             else if st_size = 0 then (OK, w)
             else
             let w = call Certificate_set_x509_trust_file w;
                 cert_count = certificate_set_x509_trust_file env
             in case (if cert_count < 0
                      then exim_gnutls_err_check cert_count
                             ''gnutls_certificate_set_x509_trust_file'' (host (state w)) w
                      else None) of
                  Some r \<Rightarrow> r
                | None \<Rightarrow>
                    if nonempty (tls_crl (state w)) \<and> nonempty (exp_tls_crl (state w)) then
                      let w = call Certificate_set_x509_crl_file w;
                          cert_count = certificate_set_x509_crl_file env
                      in case (if cert_count < 0
                               then exim_gnutls_err_check cert_count
                                      ''gnutls_certificate_set_x509_crl_file'' (host (state w)) w
                               else None) of
                           Some r \<Rightarrow> r
                         | None \<Rightarrow> (OK, w)
                    else (OK, w))"

definition expand_verify_inputs :: "expand_env \<Rightarrow> tls_world \<Rightarrow> int \<times> tls_world" where
  "expand_verify_inputs env w =
     (if nonempty (tls_verify_certificates (state w)) then
        (case expand_check_tlsvar env (tls_verify_certificates (state w)) of
           None \<Rightarrow> (DEFER, w)
         | Some e \<Rightarrow>
             let w = upd_state (\<lambda>s. s\<lparr>exp_tls_verify_certificates := e\<rparr>) w
             in case (if nonempty (tls_crl (state w))
                      then expand_check_tlsvar env (tls_crl (state w))
                      else Some (exp_tls_crl (state w))) of
                  None \<Rightarrow> (DEFER, w)
                | Some c \<Rightarrow>
                    let w = upd_state (\<lambda>s. s\<lparr>exp_tls_crl := c\<rparr>) w
                    in case exp_tls_verify_certificates (state w) of
                         None \<Rightarrow> (OK, w)
                       | Some path \<Rightarrow> if path = [] then (OK, w) else load_trust_store env path w)
      else (OK, w))"

definition tls_expand_session_files ::
  "expand_env \<Rightarrow> tls_world \<Rightarrow> crash + (int \<times> tls_world)" where
  "tls_expand_session_files env w0 =
     (let w = (if host (state w0) = None \<and> received_sni (state w0) = None \<and>
                  (case tls_certificate (state w0) of
                     Some c \<Rightarrow> Ustrstr c ''tls_sni'' | None \<Rightarrow> False)
               then upd_state (\<lambda>s. s\<lparr>trigger_sni_changes := True\<rparr>) w0 else w0);
          saved_tls_certificate =
            (if host (state w0) = None \<and> received_sni (state w0) \<noteq> None
             then exp_tls_certificate (state w0) else None);
          saved_tls_privatekey =
            (if host (state w0) = None \<and> received_sni (state w0) \<noteq> None
             then exp_tls_privatekey (state w0) else None);
          (rc, cred) = certificate_allocate_credentials env;
          w = call Certificate_allocate_credentials (upd_state (\<lambda>s. s\<lparr>x509_cred := Some cred\<rparr>) w)
      in case exim_gnutls_err_check rc ''gnutls_certificate_allocate_credentials''
                (host (state w)) w of
           Some r \<Rightarrow> Inr r
         | None \<Rightarrow>
      case expand_check_tlsvar env (tls_certificate (state w)) of
        None \<Rightarrow> Inr (DEFER, w)
      | Some e \<Rightarrow>
      let w = upd_state (\<lambda>s. s\<lparr>exp_tls_certificate := e\<rparr>) w
      in if \<not> nonempty (exp_tls_certificate (state w)) \<and> host (state w) = None
         then Inr (tls_error ''no TLS server certificate is specified'' No_msg None w)
         else
      case (if tls_privatekey (state w) \<noteq> None
            then expand_check_tlsvar env (tls_privatekey (state w))
            else Some (exp_tls_privatekey (state w))) of
        None \<Rightarrow> Inr (DEFER, w)
      | Some k \<Rightarrow>
      let w = upd_state (\<lambda>s. s\<lparr>exp_tls_privatekey := k\<rparr>) w;
          w = (if \<not> nonempty (tls_privatekey (state w))
               then upd_state (\<lambda>s. s\<lparr>tls_privatekey := tls_certificate s,
                                      exp_tls_privatekey := exp_tls_certificate s\<rparr>) w
               else w)
      in if nonempty (exp_tls_certificate (state w)) then
           (case compare_with_saved saved_tls_certificate saved_tls_privatekey w of
              Inl c \<Rightarrow> Inl c
            | Inr u \<Rightarrow>
                let w = call Certificate_set_x509_key_file w
                in case exim_gnutls_err_check (certificate_set_x509_key_file env)
                          ''cert/key setup'' (host (state w)) w of
                     Some r \<Rightarrow> Inr r
                   | None \<Rightarrow> Inr (expand_verify_inputs env w))
         else Inr (expand_verify_inputs env w))"


text \<open>
  A server whose \<open>tls_verify_certificates\<close> names a directory, all else in order; and a
  later pass of a server, after a server name was received, in which the certificate
  expands as before and the expansion of the private key is forced to fail.
\<close>

definition expand_env_directory :: expand_env where
  "expand_env_directory =
     \<lparr>certificate_allocate_credentials = (0, 1),
      expand_check = (\<lambda>s. Some (Some s)),
      certificate_set_x509_key_file = 0,
      stat_file = (\<lambda>p. if p = ''/etc/ssl/certs'' then Some (True, 4096) else Some (False, 1200)),
      certificate_set_x509_trust_file = 3,
      certificate_set_x509_crl_file = 0\<rparr>"

definition expand_env_forced_failure :: expand_env where
  "expand_env_forced_failure =
     expand_env_directory
       \<lparr>expand_check := (\<lambda>s. if s = ''${if eq{$tls_sni}{a}{/etc/exim/a.key}fail}''
                               then Some None else Some (Some s))\<rparr>"


definition world_second_pass :: tls_world where
  "world_second_pass =
     world_init\<lparr>state := exim_gnutls_state_init
       \<lparr>session := Some 1, received_sni := Some ''b'',
        tls_certificate := Some ''/etc/exim/server.pem'',
        tls_privatekey := Some ''${if eq{$tls_sni}{a}{/etc/exim/a.key}fail}'',
        exp_tls_certificate := Some ''/etc/exim/server.pem'',
        exp_tls_privatekey := Some ''/etc/exim/a.key'',
        tls_verify_certificates := Some ''/etc/ssl/certs''\<rparr>\<rparr>"


section \<open>Properties\<close>

subsection \<open>vaguely\_random\_number\<close>

lemma count_bits_zero: "count_bits 0 i = i"
  by (subst count_bits.simps) simp

lemma count_bits_step: "r \<noteq> 0 \<Longrightarrow> count_bits r i = count_bits (drop_bit 1 r) (i + 1)"
  by (subst count_bits.simps) simp

lemma count_bits_spec:
  "\<exists>k. count_bits r i = i + int k \<and> unat r < 2 ^ k \<and> (r \<noteq> 0 \<longrightarrow> 0 < k \<and> 2 ^ (k - 1) \<le> unat r)"
proof (induction r i rule: count_bits.induct)
  case (1 r i)
  show ?case
  proof (cases "r = 0")
    case True
    then show ?thesis by (simp add: count_bits_zero)
  next
    case False
    from 1 [OF False] obtain k where
      k: "count_bits (drop_bit 1 r) (i + 1) = i + 1 + int k"
         "unat (drop_bit 1 r) < 2 ^ k"
         "drop_bit 1 r \<noteq> 0 \<longrightarrow> 0 < k \<and> 2 ^ (k - 1) \<le> unat (drop_bit 1 r)"
      by blast
    have h: "unat (drop_bit 1 r) = unat r div 2"
      by (simp add: drop_bit_eq_div unat_div)
    have c: "count_bits r i = i + int (Suc k)"
      using count_bits_step [OF False, of i] k(1) by simp
    have u: "unat r < 2 ^ Suc k" using k(2) h by simp
    have l: "2 ^ (Suc k - 1) \<le> unat r"
    proof (cases "drop_bit 1 r = 0")
      case True
      then have "k = 0" using k(1) by (simp add: count_bits_zero)
      moreover have "0 < unat r" using False by (simp add: unat_gt_0)
      ultimately show ?thesis by simp
    next
      case False
      then have "0 < k" "2 ^ (k - 1) \<le> unat r div 2" using k(3) h by auto
      then have "2 * 2 ^ (k - 1) \<le> unat r" by simp
      moreover have "2 * 2 ^ (k - 1) = (2::nat) ^ k" using \<open>0 < k\<close> by (cases k) auto
      ultimately show ?thesis by simp
    qed
    show ?thesis using c u l by blast
  qed
qed


lemma sint_32: "sint (w :: 32 word) = signed_take_bit 31 (uint w)"
proof -
  have "sint w = signed_take_bit (LENGTH(32) - Suc 0) (uint w)" by (rule sint_uint)
  moreover have "LENGTH(32) - Suc 0 = 31" by simp
  ultimately show ?thesis by (simp only:)
qed

lemma sint_small:
  assumes "uint (w :: 32 word) < 2 ^ 31"
  shows "sint w = uint w"
proof -
  have "- (2 ^ 31) \<le> uint w" by (rule order_trans [of _ 0]) simp_all
  then have "signed_take_bit 31 (uint w) = uint w"
    using assms by (rule signed_take_bit_int_eq_self)
  then show ?thesis by (simp only: sint_32)
qed

lemma sint_nonneg_small:
  assumes "0 \<le> sint (w :: 32 word)"
  shows "uint w < 2 ^ 31"
proof (rule ccontr)
  assume "\<not> uint w < 2 ^ 31"
  then have "2 ^ 31 \<le> uint w" by simp
  then have "signed_take_bit 31 (uint w) \<le> uint w - 2 ^ Suc 31"
    by (rule signed_take_bit_int_less_eq)
  then have "sint w \<le> uint w - 2 ^ Suc 31" by (simp only: sint_32)
  moreover have "uint w < 2 ^ 32" using uint_bounded [of w] by simp
  ultimately have "sint w < 0" by simp
  then show False using assms by simp
qed

lemma sint_pos_unat:
  assumes "1 < sint (mx :: 32 word)"
  shows "int (unat mx) = sint mx" and "2 \<le> unat mx" and "unat mx < 2 ^ 31"
proof -
  have s: "uint mx < 2 ^ 31" using assms by (intro sint_nonneg_small) simp
  then show a: "int (unat mx) = sint mx" by (simp add: sint_small)
  show "2 \<le> unat mx" using assms a by linarith
  show "unat mx < 2 ^ 31" using s by transfer simp
qed

lemma pow256: "(256::nat) ^ n = 2 ^ (8 * n)"
  by (simp add: power_mult)

lemma needed_len_range:
  assumes "1 < sint mx"
  shows "1 \<le> needed_len mx \<and> needed_len mx \<le> 4"
    and "unat mx < 256 ^ nat (needed_len mx)"
    and "256 ^ (nat (needed_len mx) - 1) \<le> unat mx"
proof -
  have nz: "mx \<noteq> 0" using assms by auto
  from count_bits_spec [of mx 0] nz obtain k where
    k: "count_bits mx 0 = int k" "unat mx < 2 ^ k" "0 < k" "2 ^ (k - 1) \<le> unat mx"
    by auto
  have "(2::nat) ^ (k - 1) < 2 ^ 31" using k(4) sint_pos_unat(3) [OF assms] by linarith
  then have k31: "k - 1 < 31" by (simp only: power_strict_increasing_iff) 
  define n where "n = (k + 7) div 8"
  have n: "1 \<le> n" "n \<le> 4" "k \<le> 8 * n" "8 * (n - 1) \<le> k - 1"
    using k(3) k31 unfolding n_def by auto
  have "int n = (int k + 7) div 8" by (simp add: n_def zdiv_int)
  then have nl: "needed_len mx = int n"
    using n(2) by (simp add: needed_len_def Let_def k(1))
  show "1 \<le> needed_len mx \<and> needed_len mx \<le> 4" using nl n by simp
  have "(2::nat) ^ k \<le> 2 ^ (8 * n)" using n(3) by (simp only: power_increasing_iff)
  with k(2) have "unat mx < 2 ^ (8 * n)" by (rule less_le_trans)
  then show "unat mx < 256 ^ nat (needed_len mx)" by (simp only: nl pow256 nat_int)
  have "(2::nat) ^ (8 * (n - 1)) \<le> 2 ^ (k - 1)" using n(4) by (simp only: power_increasing_iff)
  then have "(2::nat) ^ (8 * (n - 1)) \<le> unat mx" using k(4) by (rule order_trans)
  then show "256 ^ (nat (needed_len mx) - 1) \<le> unat mx" by (simp only: nl pow256 nat_int)
qed

lemma mod_in_range:
  assumes "1 < sint (mx :: 32 word)"
  shows "0 \<le> sint (r mod mx) \<and> sint (r mod mx) < sint mx"
proof -
  have lt: "unat (r mod mx) < unat mx"
    using sint_pos_unat(2) [OF assms] by (simp add: unat_mod)
  then have "unat (r mod mx) < 2 ^ 31" using sint_pos_unat(3) [OF assms] by linarith
  then have "uint (r mod mx) < 2 ^ 31" by transfer simp
  then have e: "sint (r mod mx) = uint (r mod mx)" by (rule sint_small)
  have "r mod mx < mx" using lt by (simp only: word_less_nat_alt)
  then have "uint (r mod mx) < uint mx" by (simp only: word_less_def)
  moreover have "uint mx = sint mx" using sint_pos_unat(1) [OF assms] by simp
  ultimately show ?thesis using e by simp
qed


text \<open>
  C9.  \<open>vaguely_random_number\<close> returns 0 for every \<open>max \<le> 1\<close> and asks for no random
  bytes.  For \<open>max > 1\<close> it makes one request, for \<open>needed_len max\<close> bytes: between 1 and 4
  (the width of the accumulator \<open>r\<close>), enough to cover \<open>max\<close> (\<open>max < 256 ^ needed_len\<close>) and
  no more than that (\<open>256 ^ (needed_len - 1) \<le> max\<close>).  When the entropy source succeeds, the
  value returned lies in the half-open range from 0 to \<open>max\<close>.
\<close>

theorem vaguely_random_number_range:
  "(sint mx \<le> 1 \<longrightarrow> vaguely_random_number env mx = (0, [])) \<and>
   (1 < sint mx \<longrightarrow>
      snd (vaguely_random_number env mx) = [needed_len mx] \<and>
      1 \<le> needed_len mx \<and> needed_len mx \<le> 4 \<and>
      unat mx < 256 ^ nat (needed_len mx) \<and>
      256 ^ (nat (needed_len mx) - 1) \<le> unat mx) \<and>
   (1 < sint mx \<and> 0 \<le> fst (gnutls_rnd env (needed_len mx)) \<longrightarrow>
      0 \<le> sint (fst (vaguely_random_number env mx)) \<and>
      sint (fst (vaguely_random_number env mx)) < sint mx)"
proof (intro conjI)
  show "sint mx \<le> 1 \<longrightarrow> vaguely_random_number env mx = (0, [])"
    by (simp add: vaguely_random_number_def)
  show "1 < sint mx \<longrightarrow>
     snd (vaguely_random_number env mx) = [needed_len mx] \<and>
     1 \<le> needed_len mx \<and> needed_len mx \<le> 4 \<and>
     unat mx < 256 ^ nat (needed_len mx) \<and>
     256 ^ (nat (needed_len mx) - 1) \<le> unat mx"
    using needed_len_range [of mx]
    by (simp add: vaguely_random_number_def Let_def split: prod.split)
  show "1 < sint mx \<and> 0 \<le> fst (gnutls_rnd env (needed_len mx)) \<longrightarrow>
     0 \<le> sint (fst (vaguely_random_number env mx)) \<and>
     sint (fst (vaguely_random_number env mx)) < sint mx"
    using mod_in_range [of mx]
    by (auto simp: vaguely_random_number_def Let_def split: prod.split)
qed

lemma needed_len_1000: "needed_len 1000 = 2"
  by code_simp

theorem vaguely_random_number_range_witness:
  "sint (1 :: 32 word) \<le> 1 \<and> vaguely_random_number rnd_ff 1 = (0, []) \<and>
   1 < sint (1000 :: 32 word) \<and> 0 \<le> fst (gnutls_rnd rnd_ff (needed_len 1000)) \<and>
   snd (vaguely_random_number rnd_ff 1000) = [2] \<and>
   0 \<le> sint (fst (vaguely_random_number rnd_ff 1000)) \<and>
   sint (fst (vaguely_random_number rnd_ff 1000)) < 1000"
proof -
  have a: "sint (1 :: 32 word) \<le> 1" by simp
  have b: "1 < sint (1000 :: 32 word)" by simp
  have c: "0 \<le> fst (gnutls_rnd rnd_ff (needed_len 1000))" by (simp add: rnd_ff_def)
  have d: "sint (1000 :: 32 word) = 1000" by simp
  show ?thesis
    using a b c vaguely_random_number_range [of 1 rnd_ff]
      vaguely_random_number_range [of 1000 rnd_ff]
    by (simp only: needed_len_1000 d simp_thms)
qed

subsection \<open>peer\_status and verify\_certificate\<close>

lemmas peer_defs = peer_status_def Let_def tls_error_def call_def exim_gnutls_peer_err_def

lemma peer_status_sets_guard: "have_set_peerdn (state (snd (peer_status eng w)))"
  by (simp add: peer_defs split: option.split)

lemma peer_status_keeps_requirement:
  "verify_requirement (state (snd (peer_status eng w))) = verify_requirement (state w)"
  by (simp add: peer_defs split: option.split)

lemma peer_status_guarded: "have_set_peerdn (state w) \<Longrightarrow> peer_status eng w = (OK, w)"
  by (simp add: peer_status_def)

lemma peer_status_no_cert_required:
  assumes "certificate_get_peers eng = None \<or> certificate_get_peers eng = Some []"
    and "\<not> have_set_peerdn (state w)"
    and "verify_requirement (state w) = VERIFY_REQUIRED"
  shows "fst (peer_status eng w) \<noteq> OK"
  using assms by (auto simp: peer_defs OK_def FAIL_def DEFER_def split: option.split)

lemma peer_status_no_cert_lax:
  assumes "certificate_get_peers eng = None \<or> certificate_get_peers eng = Some []"
    and "verify_requirement (state w) \<noteq> VERIFY_REQUIRED"
  shows "fst (peer_status eng w) = OK"
  using assms by (auto simp: peer_defs split: option.split)

text \<open>
  C5.  \<open>peer_status\<close> is idempotent per generation of the state block.  After a first run
  the guard \<open>have_set_peerdn\<close> is set, whatever that run returned; a second run, whatever
  GnuTLS would answer then, returns \<open>OK\<close> and leaves the whole world as it was: no call into
  GnuTLS is added to the trace, and the cached \<open>peerdn\<close> is the one the first run left.
  In general, on any state whose guard is set, \<open>peer_status\<close> returns \<open>OK\<close> and changes nothing.
\<close>

theorem peer_status_idempotent:
  "have_set_peerdn (state (snd (peer_status eng w))) \<and>
   peer_status eng' (snd (peer_status eng w)) = (OK, snd (peer_status eng w)) \<and>
   calls (snd (peer_status eng' (snd (peer_status eng w)))) = calls (snd (peer_status eng w)) \<and>
   peerdn (state (snd (peer_status eng' (snd (peer_status eng w))))) =
     peerdn (state (snd (peer_status eng w))) \<and>
   (have_set_peerdn (state w) \<longrightarrow> peer_status eng w = (OK, w))"
  using peer_status_sets_guard [of eng w] by (simp add: peer_status_guarded)

theorem peer_status_idempotent_witness:
  "have_set_peerdn (state (snd (peer_status engine_revoked (world_policy VERIFY_OPTIONAL)))) \<and>
   peerdn (state (snd (peer_status engine_revoked (world_policy VERIFY_OPTIONAL)))) =
     Some ''CN=client.example'' \<and>
   peer_status engine_no_certificate
     (snd (peer_status engine_revoked (world_policy VERIFY_OPTIONAL))) =
       (OK, snd (peer_status engine_revoked (world_policy VERIFY_OPTIONAL)))"
proof -
  have "peerdn (state (snd (peer_status engine_revoked (world_policy VERIFY_OPTIONAL)))) =
     Some ''CN=client.example''"
    by (simp add: peer_defs engine_revoked_def world_policy_def world_init_def
        exim_gnutls_state_init_def GNUTLS_E_SUCCESS_def GNUTLS_E_SHORT_MEMORY_BUFFER_def)
  then show ?thesis
    using peer_status_idempotent
      [of engine_revoked "world_policy VERIFY_OPTIONAL" engine_no_certificate]
    by simp
qed

text \<open>
  C3.  In a session in which the peer presents no certificate, and on which \<open>peer_status\<close>
  has not run yet (as at the one place each entry point calls \<open>verify_certificate\<close>):
  under \<open>VERIFY_REQUIRED\<close>, \<open>verify_certificate\<close> returns \<open>FALSE\<close> with \<open>*error\<close> set to
  "not supplied", having sent the fatal alert last; under \<open>VERIFY_NONE\<close> it returns \<open>TRUE\<close>
  and \<open>peer_cert_verified\<close> is false.
\<close>

theorem verify_certificate_no_certificate:
  assumes "peer_presents_no_certificate eng"
    and "\<not> have_set_peerdn (state w)"
  shows "(verify_requirement (state w) = VERIFY_REQUIRED \<longrightarrow>
           (\<exists>w'. verify_certificate eng w = (False, Some ''not supplied'', w') \<and>
                 \<not> peer_cert_verified (state w') \<and>
                 last (calls w') = Alert_send_fatal_bad_certificate)) \<and>
         (verify_requirement (state w) = VERIFY_NONE \<longrightarrow>
           (\<exists>e w'. verify_certificate eng w = (True, e, w') \<and>
                 \<not> peer_cert_verified (state w')))"
proof (intro conjI impI)
  have nc: "certificate_get_peers eng = None \<or> certificate_get_peers eng = Some []"
    and vp: "fst (certificate_verify_peers2 eng) < 0"
    using assms(1)
    by (simp_all add: peer_presents_no_certificate_def GNUTLS_E_NO_CERTIFICATE_FOUND_def)
  obtain rc w1 where p: "peer_status eng w = (rc, w1)" by (cases "peer_status eng w")
  {
    assume r: "verify_requirement (state w) = VERIFY_REQUIRED"
    have "rc \<noteq> OK" using peer_status_no_cert_required [OF nc assms(2) r] p by simp
    moreover have "verify_requirement (state w1) = VERIFY_REQUIRED"
      using peer_status_keeps_requirement [of eng w] p r by simp
    ultimately show "\<exists>w'. verify_certificate eng w = (False, Some ''not supplied'', w') \<and>
                 \<not> peer_cert_verified (state w') \<and>
                 last (calls w') = Alert_send_fatal_bad_certificate"
      by (simp add: verify_certificate_def p Let_def call_def GNUTLS_CERT_INVALID_def
          GNUTLS_CERT_REVOKED_def)
  }
  {
    assume r: "verify_requirement (state w) = VERIFY_NONE"
    have "rc = OK" using peer_status_no_cert_lax [OF nc, of w] p r by simp
    moreover have "verify_requirement (state w1) = VERIFY_NONE"
      using peer_status_keeps_requirement [of eng w] p r by simp
    ultimately show "\<exists>e w'. verify_certificate eng w = (True, e, w') \<and>
                 \<not> peer_cert_verified (state w')"
      using vp by (simp add: verify_certificate_def p Let_def call_def)
  }
qed

theorem verify_certificate_no_certificate_witness:
  "peer_presents_no_certificate engine_no_certificate \<and>
   \<not> have_set_peerdn (state (world_policy VERIFY_REQUIRED)) \<and>
   \<not> have_set_peerdn (state (world_policy VERIFY_NONE)) \<and>
   (\<exists>w'. verify_certificate engine_no_certificate (world_policy VERIFY_REQUIRED) =
           (False, Some ''not supplied'', w')) \<and>
   (\<exists>e w'. verify_certificate engine_no_certificate (world_policy VERIFY_NONE) = (True, e, w') \<and>
           \<not> peer_cert_verified (state w'))"
proof -
  have a: "peer_presents_no_certificate engine_no_certificate"
    by (simp add: peer_presents_no_certificate_def engine_no_certificate_def
        GNUTLS_E_NO_CERTIFICATE_FOUND_def)
  have b: "\<not> have_set_peerdn (state (world_policy v))" for v
    by (simp add: world_policy_def world_init_def exim_gnutls_state_init_def)
  have c: "verify_requirement (state (world_policy v)) = v" for v
    by (simp add: world_policy_def world_init_def exim_gnutls_state_init_def)
  show ?thesis
    using a b c verify_certificate_no_certificate [OF a b, of VERIFY_REQUIRED]
      verify_certificate_no_certificate [OF a b, of VERIFY_NONE]
    by (simp only: simp_thms) blast
qed

text \<open>
  C6.  When \<open>peer_status\<close> succeeds, so that GnuTLS is asked to verify the peer, and the
  result has the invalid bit, the revoked bit or both: verification fails,
  \<open>peer_cert_verified\<close> is false, and \<open>*error\<close> is "revoked" whenever the revoked bit is
  set, also next to the invalid bit, and "invalid" when only the invalid bit is.  The
  session is rejected (\<open>FALSE\<close>) exactly under \<open>VERIFY_REQUIRED\<close>.
\<close>

theorem verify_certificate_invalid_revoked:
  assumes "fst (peer_status eng w) = OK"
    and "snd (certificate_verify_peers2 eng) AND (GNUTLS_CERT_INVALID OR GNUTLS_CERT_REVOKED) \<noteq> 0"
  shows "\<exists>w'. verify_certificate eng w =
           (verify_requirement (state w) \<noteq> VERIFY_REQUIRED,
            Some (if snd (certificate_verify_peers2 eng) AND GNUTLS_CERT_REVOKED \<noteq> 0
                  then ''revoked'' else ''invalid''),
            w') \<and>
          \<not> peer_cert_verified (state w')"
proof -
  obtain rc w1 where p: "peer_status eng w = (rc, w1)" by (cases "peer_status eng w")
  have "rc = OK" using assms(1) p by simp
  moreover have "verify_requirement (state w1) = verify_requirement (state w)"
    using peer_status_keeps_requirement [of eng w] p by simp
  ultimately show ?thesis
    using assms(2) by (simp add: verify_certificate_def p Let_def call_def)
qed

theorem verify_certificate_invalid_revoked_witness:
  "fst (peer_status engine_revoked (world_policy VERIFY_REQUIRED)) = OK \<and>
   snd (certificate_verify_peers2 engine_revoked) AND
     (GNUTLS_CERT_INVALID OR GNUTLS_CERT_REVOKED) \<noteq> 0 \<and>
   (\<exists>w'. verify_certificate engine_revoked (world_policy VERIFY_REQUIRED) =
           (False, Some ''revoked'', w') \<and> \<not> peer_cert_verified (state w'))"
proof -
  have a: "fst (peer_status engine_revoked (world_policy VERIFY_REQUIRED)) = OK"
    by (simp add: peer_defs engine_revoked_def world_policy_def world_init_def
        exim_gnutls_state_init_def GNUTLS_E_SUCCESS_def GNUTLS_E_SHORT_MEMORY_BUFFER_def)
  have b: "snd (certificate_verify_peers2 engine_revoked) AND
     (GNUTLS_CERT_INVALID OR GNUTLS_CERT_REVOKED) \<noteq> 0"
    by (simp add: engine_revoked_def GNUTLS_CERT_INVALID_def GNUTLS_CERT_REVOKED_def)
  have c: "snd (certificate_verify_peers2 engine_revoked) AND GNUTLS_CERT_REVOKED \<noteq> 0"
    by (simp add: engine_revoked_def GNUTLS_CERT_REVOKED_def)
  have d: "verify_requirement (state (world_policy VERIFY_REQUIRED)) = VERIFY_REQUIRED"
    by (simp add: world_policy_def world_init_def exim_gnutls_state_init_def)
  show ?thesis
    using a b verify_certificate_invalid_revoked [OF a b]
    by (simp only: c d simp_thms if_True)
qed

subsection \<open>tls\_getc\<close>

lemma receive_times_add:
  "receive_times (m + n) w =
     (case receive_times m w of
        None \<Rightarrow> None
      | Some (cs, w') \<Rightarrow>
          (case receive_times n w' of
             None \<Rightarrow> None
           | Some (ds, w'') \<Rightarrow> Some (cs @ ds, w'')))"
  by (induction m arbitrary: w) (auto split: option.split)

lemma receive_buffered:
  assumes "receive_getc w = Via_tls"
    and "0 \<le> xfer_buffer_lwm (state w)"
    and "xfer_buffer_lwm (state w) + int n \<le> xfer_buffer_hwm (state w)"
    and "xfer_buffer_hwm (state w) \<le> int (length (xfer_buffer (state w)))"
  shows "receive_times n w =
           Some (map uint (take n (drop (nat (xfer_buffer_lwm (state w))) (xfer_buffer (state w)))),
                 w\<lparr>state := (state w)\<lparr>xfer_buffer_lwm := xfer_buffer_lwm (state w) + int n\<rparr>\<rparr>)"
  using assms
proof (induction n arbitrary: w)
  case 0
  then show ?case by simp
next
  case (Suc n)
  let ?l = "xfer_buffer_lwm (state w)"
  let ?w = "w\<lparr>state := (state w)\<lparr>xfer_buffer_lwm := ?l + 1\<rparr>\<rparr>"
  have lt: "nat ?l < length (xfer_buffer (state w))" using Suc.prems by linarith
  have one: "receive_getc_call w = Some (uint (xfer_buffer (state w) ! nat ?l), ?w)"
    using Suc.prems by (simp add: receive_getc_call_def tls_getc_def)
  have rest: "receive_times n ?w =
           Some (map uint (take n (drop (nat (?l + 1)) (xfer_buffer (state w)))),
                 w\<lparr>state := (state w)\<lparr>xfer_buffer_lwm := ?l + 1 + int n\<rparr>\<rparr>)"
    using Suc.IH [of ?w] Suc.prems by simp
  have n1: "nat (?l + 1) = Suc (nat ?l)" using Suc.prems by linarith
  have "take (Suc n) (drop (nat ?l) (xfer_buffer (state w))) =
          xfer_buffer (state w) ! nat ?l # take n (drop (nat (?l + 1)) (xfer_buffer (state w)))"
    using lt by (simp add: n1 flip: Cons_nth_drop_Suc)
  then show ?case using one rest by (simp add: add.assoc add.commute)
qed


lemma receive_record:
  assumes tls: "receive_getc w = Via_tls"
    and empty: "xfer_buffer_hwm (state w) \<le> xfer_buffer_lwm (state w)"
    and pend: "recv_pending w = Recv_bytes bs # rest"
    and ne: "bs \<noteq> []"
    and fits: "length bs \<le> length (xfer_buffer (state w))"
  shows "receive_times (length bs) w = Some (map uint bs, after_record bs w)"
proof -
  obtain b bs' where bs: "bs = b # bs'" using ne by (cases bs) auto
  let ?buf = "bs @ drop (length bs) (xfer_buffer (state w))"
  let ?w = "w\<lparr>state := (state w)\<lparr>xfer_buffer := ?buf, xfer_buffer_hwm := int (length bs),
                                  xfer_buffer_lwm := 1\<rparr>,
             recv_pending := rest,
             dkim_fed := dkim_fed w @ bs,
             calls := calls w @ [Record_recv (length (xfer_buffer (state w)))]\<rparr>"
  have n: "nat (1 + int (length bs')) = Suc (length bs')" by simp
  have one: "receive_getc_call w = Some (uint b, ?w)"
    using tls empty pend
    by (simp add: receive_getc_call_def tls_getc_def gnutls_record_recv_def call_def
        inbytes_of_def written_by_def Let_def bs n)
  have "receive_times (length bs') ?w =
          Some (map uint (take (length bs') (drop (nat (xfer_buffer_lwm (state ?w))) (xfer_buffer (state ?w)))),
                ?w\<lparr>state := (state ?w)\<lparr>xfer_buffer_lwm := xfer_buffer_lwm (state ?w) + int (length bs')\<rparr>\<rparr>)"
    by (rule receive_buffered) (use tls fits in \<open>simp_all add: bs\<close>)
  then have rest: "receive_times (length bs') ?w = Some (map uint bs', after_record bs w)"
    using pend by (simp add: bs after_record_def add.commute)
  show ?thesis using one rest by (simp add: bs)
qed

lemma after_record_fields:
  "receive_getc (after_record bs w) = receive_getc w"
  "xfer_buffer_hwm (state (after_record bs w)) \<le> xfer_buffer_lwm (state (after_record bs w))"
  "recv_pending (after_record bs w) = tl (recv_pending w)"
  "smtp_pending (after_record bs w) = smtp_pending w"
  "session (state (after_record bs w)) = session (state w)"
  "host (state (after_record bs w)) = host (state w)"
  "dkim_fed (after_record bs w) = dkim_fed w @ bs"
  "length bs \<le> length (xfer_buffer (state w)) \<Longrightarrow>
     length (xfer_buffer (state (after_record bs w))) = length (xfer_buffer (state w))"
  by (simp_all add: after_record_def)

lemma after_records_fields:
  assumes "\<forall>bs \<in> set rs. length bs \<le> length (xfer_buffer (state w))"
  shows "receive_getc (after_records rs w) = receive_getc w"
    and "xfer_buffer_hwm (state w) \<le> xfer_buffer_lwm (state w) \<Longrightarrow>
         xfer_buffer_hwm (state (after_records rs w)) \<le> xfer_buffer_lwm (state (after_records rs w))"
    and "recv_pending (after_records rs w) = drop (length rs) (recv_pending w)"
    and "smtp_pending (after_records rs w) = smtp_pending w"
    and "session (state (after_records rs w)) = session (state w)"
    and "dkim_fed (after_records rs w) = dkim_fed w @ concat rs"
    and "length (xfer_buffer (state (after_records rs w))) = length (xfer_buffer (state w))"
  using assms
  by (induction rs arbitrary: w; simp add: after_records_def after_record_fields drop_Suc tl_drop)+

lemma receive_records:
  assumes "receive_getc w = Via_tls"
    and "xfer_buffer_hwm (state w) \<le> xfer_buffer_lwm (state w)"
    and "recv_pending w = map Recv_bytes rs @ rest"
    and "\<forall>bs \<in> set rs. bs \<noteq> [] \<and> length bs \<le> length (xfer_buffer (state w))"
  shows "receive_times (length (concat rs)) w = Some (map uint (concat rs), after_records rs w)"
  using assms
proof (induction rs arbitrary: w)
  case Nil
  then show ?case by (simp add: after_records_def)
next
  case (Cons bs rs)
  have first: "receive_times (length bs) w = Some (map uint bs, after_record bs w)"
    using Cons.prems by (intro receive_record [where rest = "map Recv_bytes rs @ rest"]) simp_all
  have "receive_times (length (concat rs)) (after_record bs w) =
          Some (map uint (concat rs), after_records rs (after_record bs w))"
    using Cons.prems by (intro Cons.IH) (simp_all add: after_record_fields)
  then show ?case
    using first by (simp add: receive_times_add after_records_def)
qed


lemma tls_getc_fallback:
  assumes "xfer_buffer_hwm (state w) \<le> xfer_buffer_lwm (state w)"
    and "recv_pending w = Recv_bytes [] # rest"
    and "smtp_pending w = c # cs"
  shows "tls_getc w = Some (c, fallen_back w)"
  using assms
  by (simp add: tls_getc_def gnutls_record_recv_def call_def inbytes_of_def written_by_def
      Let_def smtp_getc_def fallen_back_def)

lemma receive_plaintext:
  assumes "receive_getc w = Via_smtp"
    and "k \<le> length (smtp_pending w)"
  shows "receive_times k w =
           Some (take k (smtp_pending w),
                 w\<lparr>smtp_pending := drop k (smtp_pending w),
                   calls := calls w @ replicate k Smtp_getc\<rparr>)"
  using assms
proof (induction k arbitrary: w)
  case 0
  then show ?case by simp
next
  case (Suc k)
  then obtain c cs where p: "smtp_pending w = c # cs" by (cases "smtp_pending w") auto
  let ?w = "w\<lparr>smtp_pending := cs, calls := calls w @ [Smtp_getc]\<rparr>"
  have one: "receive_getc_call w = Some (c, ?w)"
    using Suc.prems by (simp add: receive_getc_call_def smtp_getc_def call_def p)
  have "receive_times k ?w =
          Some (take k (smtp_pending ?w),
                ?w\<lparr>smtp_pending := drop k (smtp_pending ?w),
                    calls := calls ?w @ replicate k Smtp_getc\<rparr>)"
    using Suc.prems by (intro Suc.IH) (simp_all add: p)
  then show ?case using one by (simp add: p replicate_append_same)
qed

text \<open>
  C2.  Let the receive pointers name the TLS functions, the byte buffer be used up, and
  the transport deliver the records \<open>rs\<close> (each non-empty and no longer than the buffer),
  then a zero-length read; let the plaintext source hold \<open>c\<close> first.  Then as many reads as
  the records have bytes return exactly these bytes, in order (and feed them to DKIM).  The
  next call of \<open>tls_getc\<close> sets the five receive pointers to the plaintext functions,
  deinitialises the session and clears the pointer to it, resets \<open>tls_active\<close>, \<open>tls_bits\<close>,
  \<open>tls_certificate_verified\<close>, \<open>tls_channelbinding_b64\<close>, \<open>tls_cipher\<close> and \<open>tls_peerdn\<close>, and
  returns \<open>c\<close>.  Reads after that continue with the plaintext source: the whole sequence is
  the bytes of the records, then the plaintext values, none lost and none repeated.
\<close>

theorem tls_getc_fallback_sequence:
  assumes tls: "receive_getc w = Via_tls"
    and empty: "xfer_buffer_hwm (state w) \<le> xfer_buffer_lwm (state w)"
    and pend: "recv_pending w = map Recv_bytes rs @ Recv_bytes [] # rest"
    and recs: "\<forall>bs \<in> set rs. bs \<noteq> [] \<and> length bs \<le> length (xfer_buffer (state w))"
    and plain: "smtp_pending w = c # cs"
    and k: "k \<le> length cs"
  shows "\<exists>w1 w2 w3.
           receive_times (length (concat rs)) w = Some (map uint (concat rs), w1) \<and>
           receive_getc w1 = Via_tls \<and>
           tls_getc w1 = Some (c, w2) \<and>
           receive_getc w2 = Via_smtp \<and> receive_ungetc w2 = Via_smtp \<and>
           receive_feof w2 = Via_smtp \<and> receive_ferror w2 = Via_smtp \<and>
           receive_smtp_buffered w2 = Via_smtp \<and>
           Deinit (session (state w)) \<in> set (calls w2) \<and> session (state w2) = None \<and>
           tls_active w2 = - 1 \<and> tls_bits w2 = 0 \<and> \<not> tls_certificate_verified w2 \<and>
           tls_channelbinding_b64 w2 = None \<and> tls_cipher w2 = None \<and> tls_peerdn w2 = None \<and>
           dkim_fed w2 = dkim_fed w @ concat rs \<and>
           smtp_pending w2 = cs \<and> recv_pending w2 = rest \<and>
           receive_times (length (concat rs) + Suc k) w =
             Some (map uint (concat rs) @ c # take k cs, w3)"
proof -
  let ?w1 = "after_records rs w"
  let ?w2 = "fallen_back ?w1"
  have sz: "\<forall>bs \<in> set rs. length bs \<le> length (xfer_buffer (state w))" using recs by simp
  note f = after_records_fields [OF sz]
  have r1: "receive_times (length (concat rs)) w = Some (map uint (concat rs), ?w1)"
    using tls empty pend recs by (rule receive_records)
  have p1: "recv_pending ?w1 = Recv_bytes [] # rest" by (simp add: f(3) pend)
  have s1: "smtp_pending ?w1 = c # cs" by (simp add: f(4) plain)
  have g: "tls_getc ?w1 = Some (c, ?w2)"
    using f(2) [OF empty] p1 s1 by (rule tls_getc_fallback)
  have g': "receive_getc_call ?w1 = Some (c, ?w2)"
    using g tls by (simp add: receive_getc_call_def f(1))
  have v2: "receive_getc ?w2 = Via_smtp" by (simp add: fallen_back_def)
  have c2: "smtp_pending ?w2 = cs" by (simp add: fallen_back_def s1)
  have r3: "receive_times k ?w2 =
          Some (take k (smtp_pending ?w2),
                ?w2\<lparr>smtp_pending := drop k (smtp_pending ?w2),
                    calls := calls ?w2 @ replicate k Smtp_getc\<rparr>)"
    using v2 k by (intro receive_plaintext) (simp_all add: c2)
  have all: "receive_times (length (concat rs) + Suc k) w =
             Some (map uint (concat rs) @ c # take k cs,
                   ?w2\<lparr>smtp_pending := drop k (smtp_pending ?w2),
                    calls := calls ?w2 @ replicate k Smtp_getc\<rparr>)"
    by (subst receive_times_add) (simp add: r1 g' r3 c2)
  have props: "receive_getc ?w2 = Via_smtp \<and> receive_ungetc ?w2 = Via_smtp \<and>
           receive_feof ?w2 = Via_smtp \<and> receive_ferror ?w2 = Via_smtp \<and>
           receive_smtp_buffered ?w2 = Via_smtp \<and>
           Deinit (session (state w)) \<in> set (calls ?w2) \<and> session (state ?w2) = None \<and>
           tls_active ?w2 = - 1 \<and> tls_bits ?w2 = 0 \<and> \<not> tls_certificate_verified ?w2 \<and>
           tls_channelbinding_b64 ?w2 = None \<and> tls_cipher ?w2 = None \<and> tls_peerdn ?w2 = None \<and>
           dkim_fed ?w2 = dkim_fed w @ concat rs \<and> recv_pending ?w2 = rest"
    by (simp add: fallen_back_def f(5) f(6) p1)
  have t1: "receive_getc ?w1 = Via_tls" using tls by (simp add: f(1))
  let ?w3 = "?w2\<lparr>smtp_pending := drop k (smtp_pending ?w2),
                  calls := calls ?w2 @ replicate k Smtp_getc\<rparr>"
  show ?thesis
    apply (rule exI [of _ ?w1])
    apply (rule exI [of _ ?w2])
    apply (rule exI [of _ ?w3])
    apply (intro conjI)
    using r1 g all props c2 t1 apply (simp_all only: simp_thms)
    done
qed


theorem tls_getc_fallback_sequence_witness:
  "receive_getc world_two_records = Via_tls \<and>
   xfer_buffer_hwm (state world_two_records) \<le> xfer_buffer_lwm (state world_two_records) \<and>
   recv_pending world_two_records = map Recv_bytes [[1, 2, 3], [4]] @ Recv_bytes [] # [] \<and>
   length (xfer_buffer (state world_two_records)) = 8 \<and>
   smtp_pending world_two_records = 65 # [66] \<and>
   (\<exists>w3. receive_times 6 world_two_records = Some ([1, 2, 3, 4, 65, 66], w3))"
proof -
  have a: "receive_getc world_two_records = Via_tls"
    by (simp add: world_two_records_def)
  have b: "xfer_buffer_hwm (state world_two_records) \<le> xfer_buffer_lwm (state world_two_records)"
    by (simp add: world_two_records_def world_policy_def exim_gnutls_state_init_def)
  have c: "recv_pending world_two_records = map Recv_bytes [[1, 2, 3], [4]] @ Recv_bytes [] # []"
    by (simp add: world_two_records_def)
  have d: "\<forall>bs \<in> set [[1, 2, 3], [4 :: 8 word]].
      bs \<noteq> [] \<and> length bs \<le> length (xfer_buffer (state world_two_records))"
    by (simp add: world_two_records_def)
  have e: "smtp_pending world_two_records = 65 # [66]"
    by (simp add: world_two_records_def)
  have f: "(1 :: nat) \<le> length [66 :: int]" by simp
  from tls_getc_fallback_sequence [OF a b c d e f]
  obtain w3 where
    "receive_times (length (concat [[1, 2, 3], [4 :: 8 word]]) + Suc 1) world_two_records =
       Some (map uint (concat [[1, 2, 3], [4 :: 8 word]]) @ 65 # take 1 [66], w3)"
    by blast
  moreover have "length (concat [[1, 2, 3], [4 :: 8 word]]) + Suc 1 = 6" by simp
  moreover have "map uint (concat [[1, 2, 3], [4 :: 8 word]]) @ 65 # take 1 [66] =
      [1, 2, 3, 4, 65, 66 :: int]" by simp
  ultimately have "receive_times 6 world_two_records = Some ([1, 2, 3, 4, 65, 66], w3)"
    by (simp only:)
  then have "\<exists>w3. receive_times 6 world_two_records = Some ([1, 2, 3, 4, 65, 66], w3)" ..
  moreover have "length (xfer_buffer (state world_two_records)) = 8"
    by (simp add: world_two_records_def)
  ultimately show ?thesis using a b c e by (simp only: simp_thms)
qed

subsection \<open>tls\_read\<close>

text \<open>
  C10.  \<open>tls_read\<close> never falls back to the plaintext transport.  Whatever the read
  returns, the state block (with the session pointer and \<open>xfer_error\<close>) and the five
  receive pointers stay as they were, and the published session facts too.  A zero-length
  read returns \<open>-1\<close>, the value a failed read returns, and nothing is logged; a
  negative-length read returns \<open>-1\<close> after one line to the log through \<open>record_io_error\<close>;
  a positive length is returned as it is, with nothing logged.
\<close>

theorem tls_read_no_fallback:
  assumes "recv_pending w = r # rest"
  shows "\<exists>ret buf w' n.
           tls_read len w = Some (ret, buf, w') \<and>
           state w' = state w \<and>
           session (state w') = session (state w) \<and>
           xfer_error (state w') = xfer_error (state w) \<and>
           receive_getc w' = receive_getc w \<and> receive_ungetc w' = receive_ungetc w \<and>
           receive_feof w' = receive_feof w \<and> receive_ferror w' = receive_ferror w \<and>
           receive_smtp_buffered w' = receive_smtp_buffered w \<and>
           tls_active w' = tls_active w \<and> tls_cipher w' = tls_cipher w \<and>
           smtp_pending w' = smtp_pending w \<and>
           (inbytes_of r = 0 \<longrightarrow> ret = - 1 \<and> calls w' = calls w @ [Record_recv n]) \<and>
           (inbytes_of r < 0 \<longrightarrow> ret = - 1 \<and>
              (\<exists>msg. calls w' = calls w @ [Record_recv n, Log_write ''recv'' msg (host (state w))])) \<and>
           (inbytes_of r > 0 \<longrightarrow> ret = inbytes_of r \<and> calls w' = calls w @ [Record_recv n])"
  using assms
  by (auto simp: tls_read_def gnutls_record_recv_def call_def Let_def record_io_error_def
      tls_error_def split: option.split)

theorem tls_read_no_fallback_witness:
  "recv_pending (world_two_records\<lparr>recv_pending := [Recv_bytes []]\<rparr>) = Recv_bytes [] # [] \<and>
   (\<exists>w'. tls_read 10 (world_two_records\<lparr>recv_pending := [Recv_bytes []]\<rparr>) = Some (- 1, [], w') \<and>
         receive_getc w' = Via_tls \<and> session (state w') = Some 1)"
proof -
  let ?w = "world_two_records\<lparr>recv_pending := [Recv_bytes []]\<rparr>"
  have a: "recv_pending ?w = Recv_bytes [] # []" by simp
  have b: "inbytes_of (Recv_bytes []) = 0" by (simp add: inbytes_of_def)
  have c: "receive_getc ?w = Via_tls" "session (state ?w) = Some 1"
    by (simp_all add: world_two_records_def world_policy_def)
  have e: "tls_read 10 ?w = Some (ret, buf, w') \<Longrightarrow> buf = []" for ret buf w'
    by (auto simp: tls_read_def gnutls_record_recv_def Let_def inbytes_of_def written_by_def
        split: if_splits)
  show ?thesis
    using a b c e tls_read_no_fallback [OF a, of 10] by (simp only: simp_thms) metis
qed

subsection \<open>The handshake loop\<close>

lemma flag_after_Cons: "flag_after ((r, a) # pre) seen = flag_after pre (seen \<or> a)"
  by (auto simp: flag_after_def)

lemma handshake_loop_complete:
  "retried pre seen \<Longrightarrow>
   \<not> (rc = GNUTLS_E_AGAIN \<or> (rc = GNUTLS_E_INTERRUPTED \<and> \<not> (flag_after pre seen \<or> alarm))) \<Longrightarrow>
   handshake_loop (pre @ (rc, alarm) # rest) seen w =
     Some (rc, flag_after pre seen \<or> alarm, rest,
           w\<lparr>calls := calls w @ replicate (Suc (length pre)) Handshake\<rparr>)"
proof (induction pre arbitrary: seen w)
  case Nil
  then show ?case by (auto simp: flag_after_def call_def)
next
  case (Cons s pre)
  obtain r a where s: "s = (r, a)" by (cases s)
  note f = flag_after_Cons
  have "handshake_loop (pre @ (rc, alarm) # rest) (seen \<or> a) (call Handshake w) =
     Some (rc, flag_after pre (seen \<or> a) \<or> alarm, rest,
           (call Handshake w)\<lparr>calls := calls (call Handshake w) @ replicate (Suc (length pre)) Handshake\<rparr>)"
    using Cons.prems by (intro Cons.IH) (simp_all add: s f)
  then show ?case using Cons.prems
    by (simp add: s f call_def replicate_append_same)
qed

lemma handshake_loop_sound:
  "handshake_loop script seen w = Some (rc, seen', rest, w') \<Longrightarrow>
   \<exists>pre alarm. script = pre @ (rc, alarm) # rest \<and> retried pre seen \<and>
     seen' = (flag_after pre seen \<or> alarm) \<and>
     \<not> (rc = GNUTLS_E_AGAIN \<or> (rc = GNUTLS_E_INTERRUPTED \<and> \<not> seen')) \<and>
     w' = w\<lparr>calls := calls w @ replicate (Suc (length pre)) Handshake\<rparr>"
proof (induction script arbitrary: seen w)
  case Nil
  then show ?case by simp
next
  case (Cons s script)
  obtain r a where s: "s = (r, a)" by (cases s)
  show ?case
  proof (cases "r = GNUTLS_E_AGAIN \<or> (r = GNUTLS_E_INTERRUPTED \<and> \<not> (seen \<or> a))")
    case True
    then have "handshake_loop script (seen \<or> a) (call Handshake w) = Some (rc, seen', rest, w')"
      using Cons.prems by (simp add: s)
    from Cons.IH [OF this] obtain pre alarm where
      p: "script = pre @ (rc, alarm) # rest" "retried pre (seen \<or> a)"
         "seen' = (flag_after pre (seen \<or> a) \<or> alarm)"
         "\<not> (rc = GNUTLS_E_AGAIN \<or> (rc = GNUTLS_E_INTERRUPTED \<and> \<not> seen'))"
         "w' = (call Handshake w)\<lparr>calls := calls (call Handshake w) @ replicate (Suc (length pre)) Handshake\<rparr>"
      by blast
    note f = flag_after_Cons
    show ?thesis
      apply (rule exI [of _ "s # pre"])
      apply (rule exI [of _ alarm])
      using p True apply (simp add: s f call_def replicate_append_same)
      done
  next
    case False
    then have "rc = r" "seen' = (seen \<or> a)" "rest = script" "w' = call Handshake w"
      using Cons.prems by (auto simp: s Let_def split: if_splits)
    then show ?thesis
      apply (intro exI [of _ "[]"] exI [of _ a])
      using False apply (simp add: s flag_after_def call_def)
      done
  qed
qed


text \<open>
  C4.  The loop returns the code \<open>rc\<close> exactly when the calls before it all returned
  \<open>GNUTLS_E_AGAIN\<close>, or \<open>GNUTLS_E_INTERRUPTED\<close> with \<open>sigalrm_seen\<close> still unset, and \<open>rc\<close> is
  neither: it calls \<open>gnutls_handshake\<close> once per retried answer and once more.  When the
  loop ends with a code other than \<open>GNUTLS_E_SUCCESS\<close>, \<open>tls_server_start\<close> returns \<open>FAIL\<close>;
  if \<open>sigalrm_seen\<close> is unset it has logged the error and closed \<open>smtp_out\<close> and \<open>smtp_in\<close>,
  if it is set (a timeout) it has logged "timed out" and closed neither.  \<open>tls_client_start\<close>
  logs the same and closes nothing.
\<close>

theorem handshake_retry_and_close:
  "(handshake_loop script seen w = Some (rc, seen', rest, w') \<longleftrightarrow>
      (\<exists>pre alarm. script = pre @ (rc, alarm) # rest \<and> retried pre seen \<and>
         seen' = (flag_after pre seen \<or> alarm) \<and>
         \<not> (rc = GNUTLS_E_AGAIN \<or> (rc = GNUTLS_E_INTERRUPTED \<and> \<not> seen')) \<and>
         w' = w\<lparr>calls := calls w @ replicate (Suc (length pre)) Handshake\<rparr>)) \<and>
   (handshake_loop script False w = Some (rc, seen', rest, w') \<and> rc \<noteq> GNUTLS_E_SUCCESS \<longrightarrow>
      tls_server_start_handshake script w =
        Some (Inl FAIL,
              w'\<lparr>calls := calls w' @
                 (if seen' then [Log_write ''gnutls_handshake'' (Text ''timed out'') None]
                  else [Log_write ''gnutls_handshake'' (Gnutls_strerror rc) None,
                        Fclose_smtp_out, Fclose_smtp_in])\<rparr>)) \<and>
   (handshake_loop script False w = Some (rc, seen', rest, w') \<and> rc \<noteq> GNUTLS_E_SUCCESS \<longrightarrow>
      tls_client_start_handshake script w =
        Some (Inl (if host (state w') = None then DEFER else FAIL),
              w'\<lparr>calls := calls w' @
                 [Log_write ''gnutls_handshake''
                    (if seen' then Text ''timed out'' else Gnutls_strerror rc)
                    (host (state w'))]\<rparr>))"
proof (intro conjI iffI impI)
  assume "handshake_loop script seen w = Some (rc, seen', rest, w')"
  then show "\<exists>pre alarm. script = pre @ (rc, alarm) # rest \<and> retried pre seen \<and>
         seen' = (flag_after pre seen \<or> alarm) \<and>
         \<not> (rc = GNUTLS_E_AGAIN \<or> (rc = GNUTLS_E_INTERRUPTED \<and> \<not> seen')) \<and>
         w' = w\<lparr>calls := calls w @ replicate (Suc (length pre)) Handshake\<rparr>"
    by (rule handshake_loop_sound)
next
  assume "\<exists>pre alarm. script = pre @ (rc, alarm) # rest \<and> retried pre seen \<and>
         seen' = (flag_after pre seen \<or> alarm) \<and>
         \<not> (rc = GNUTLS_E_AGAIN \<or> (rc = GNUTLS_E_INTERRUPTED \<and> \<not> seen')) \<and>
         w' = w\<lparr>calls := calls w @ replicate (Suc (length pre)) Handshake\<rparr>"
  then obtain pre alarm where
    p: "script = pre @ (rc, alarm) # rest" "retried pre seen"
       "seen' = (flag_after pre seen \<or> alarm)"
       "\<not> (rc = GNUTLS_E_AGAIN \<or> (rc = GNUTLS_E_INTERRUPTED \<and> \<not> seen'))"
       "w' = w\<lparr>calls := calls w @ replicate (Suc (length pre)) Handshake\<rparr>"
    by blast
  have "handshake_loop (pre @ (rc, alarm) # rest) seen w =
     Some (rc, flag_after pre seen \<or> alarm, rest,
           w\<lparr>calls := calls w @ replicate (Suc (length pre)) Handshake\<rparr>)"
    using p(2) p(4) unfolding p(3) by (rule handshake_loop_complete)
  then show "handshake_loop script seen w = Some (rc, seen', rest, w')"
    by (simp only: p)
next
  assume "handshake_loop script False w = Some (rc, seen', rest, w') \<and> rc \<noteq> GNUTLS_E_SUCCESS"
  then show "tls_server_start_handshake script w =
        Some (Inl FAIL,
              w'\<lparr>calls := calls w' @
                 (if seen' then [Log_write ''gnutls_handshake'' (Text ''timed out'') None]
                  else [Log_write ''gnutls_handshake'' (Gnutls_strerror rc) None,
                        Fclose_smtp_out, Fclose_smtp_in])\<rparr>)"
    by (simp add: tls_server_start_handshake_def tls_error_def call_def)
next
  assume "handshake_loop script False w = Some (rc, seen', rest, w') \<and> rc \<noteq> GNUTLS_E_SUCCESS"
  then show "tls_client_start_handshake script w =
        Some (Inl (if host (state w') = None then DEFER else FAIL),
              w'\<lparr>calls := calls w' @
                 [Log_write ''gnutls_handshake''
                    (if seen' then Text ''timed out'' else Gnutls_strerror rc)
                    (host (state w'))]\<rparr>)"
    by (auto simp: tls_client_start_handshake_def tls_error_def call_def split: option.split)
qed

lemma handshake_example:
  "handshake_loop [(GNUTLS_E_AGAIN, False), (GNUTLS_E_INTERRUPTED, False), (- 12, False)]
     False world_init =
   Some (- 12, False, [], world_init\<lparr>calls := [Handshake, Handshake, Handshake]\<rparr>)"
  by (simp add: call_def world_init_def GNUTLS_E_AGAIN_def GNUTLS_E_INTERRUPTED_def)

theorem handshake_retry_and_close_witness:
  "handshake_loop [(GNUTLS_E_AGAIN, False), (GNUTLS_E_INTERRUPTED, False), (- 12, False)]
     False world_init =
     Some (- 12, False, [], world_init\<lparr>calls := [Handshake, Handshake, Handshake]\<rparr>) \<and>
   - 12 \<noteq> GNUTLS_E_SUCCESS \<and>
   tls_server_start_handshake
     [(GNUTLS_E_AGAIN, False), (GNUTLS_E_INTERRUPTED, False), (- 12, False)] world_init =
     Some (Inl FAIL,
           world_init\<lparr>calls := [Handshake, Handshake, Handshake,
                                 Log_write ''gnutls_handshake'' (Gnutls_strerror (- 12)) None,
                                 Fclose_smtp_out, Fclose_smtp_in]\<rparr>)"
proof -
  let ?script = "[(GNUTLS_E_AGAIN, False), (GNUTLS_E_INTERRUPTED, False), (- 12, False)]"
  let ?w' = "world_init\<lparr>calls := [Handshake, Handshake, Handshake]\<rparr>"
  have b: "- 12 \<noteq> GNUTLS_E_SUCCESS" by (simp add: GNUTLS_E_SUCCESS_def)
  have "tls_server_start_handshake ?script world_init =
        Some (Inl FAIL,
              ?w'\<lparr>calls := calls ?w' @
                 (if False then [Log_write ''gnutls_handshake'' (Text ''timed out'') None]
                  else [Log_write ''gnutls_handshake'' (Gnutls_strerror (- 12)) None,
                        Fclose_smtp_out, Fclose_smtp_in])\<rparr>)"
    using handshake_retry_and_close [of ?script False world_init "- 12" False "[]" ?w']
      handshake_example b
    by blast
  then show ?thesis using handshake_example b by simp
qed


subsection \<open>tls\_write\<close>

lemma uint_sub_sane:
  assumes "0 < x" "x \<le> uint (left :: 64 word)"
  shows "uint (left - word_of_int x) = uint left - x"
proof -
  have "uint (word_of_int x :: 64 word) = x"
    using assms uint_bounded [of left] by (simp add: uint_word_of_int take_bit_int_eq_self)
  moreover have "word_of_int x \<le> left"
    using assms calculation by (simp add: word_le_def)
  ultimately show ?thesis by (simp add: uint_minus_simple_alt)
qed

lemma tls_write_loop_success:
  "engine_sane outs left \<Longrightarrow> tls_write_loop outs left w = Some (True, w') \<Longrightarrow>
   \<exists>k \<le> length outs. (\<forall>x \<in> set (take k outs). 0 < x) \<and> sum_list (take k outs) = uint left \<and>
     set (calls w') \<subseteq> set (calls w) \<union> range Record_send"
proof (induction outs arbitrary: left w)
  case Nil
  then show ?case by (simp split: if_splits)
next
  case (Cons x outs)
  show ?case
  proof (cases "left = 0")
    case True
    then have "w' = w" using Cons.prems by simp
    then show ?thesis using True by (intro exI [of _ 0]) simp
  next
    case False
    then have pos: "0 < x"
      and run: "tls_write_loop outs (left - word_of_int x) (call (Record_send left) w) = Some (True, w')"
      using Cons.prems(2) by (auto simp: Let_def split: if_splits)
    have sane: "x \<le> uint left" "engine_sane outs (left - word_of_int x)"
      using Cons.prems(1) pos by simp_all
    from Cons.IH [OF sane(2) run] obtain k where
      k: "k \<le> length outs" "\<forall>x \<in> set (take k outs). 0 < x"
         "sum_list (take k outs) = uint (left - word_of_int x)"
         "set (calls w') \<subseteq> set (calls (call (Record_send left) w)) \<union> range Record_send"
      by blast
    have u: "uint (left - word_of_int x) = uint left - x" using pos sane(1) by (rule uint_sub_sane)
    have c: "set (calls w') \<subseteq> set (calls w) \<union> range Record_send"
      using k(4) by (auto simp: call_def)
    show ?thesis
      using k(1) k(2) k(3) pos u c by (intro exI [of _ "Suc k"]) simp
  qed
qed

lemma tls_write_loop_failure:
  "engine_sane outs left \<Longrightarrow> tls_write_loop outs left w = Some (False, w') \<Longrightarrow>
   \<exists>k < length outs. (\<forall>x \<in> set (take k outs). 0 < x) \<and> outs ! k \<le> 0 \<and>
     sum_list (take k outs) < uint left \<and>
     (\<exists>msg. last (calls w') = Log_write ''send'' msg (host (state w)))"
proof (induction outs arbitrary: left w)
  case Nil
  then show ?case by (simp split: if_splits)
next
  case (Cons x outs)
  have nz: "left \<noteq> 0" using Cons.prems(2) by (auto split: if_splits)
  then have "uint left \<noteq> 0" by (simp add: uint_0_iff)
  moreover have "0 \<le> uint left" by simp
  ultimately have lpos: "0 < uint left" by linarith
  show ?case
  proof (cases "0 < x")
    case False
    then have "w' = record_io_error x ''send'' (call (Record_send left) w)"
      using Cons.prems(2) nz by (auto simp: Let_def split: if_splits)
    then have "\<exists>msg. last (calls w') = Log_write ''send'' msg (host (state w))"
      by (simp add: record_io_error_def tls_error_def call_def Let_def split: option.split)
    then show ?thesis using False lpos by (intro exI [of _ 0]) simp
  next
    case True
    then have run: "tls_write_loop outs (left - word_of_int x) (call (Record_send left) w) = Some (False, w')"
      using Cons.prems(2) nz by (auto simp: Let_def split: if_splits)
    have sane: "x \<le> uint left" "engine_sane outs (left - word_of_int x)"
      using Cons.prems(1) True by simp_all
    from Cons.IH [OF sane(2) run] obtain k where
      k: "k < length outs" "\<forall>x \<in> set (take k outs). 0 < x" "outs ! k \<le> 0"
         "sum_list (take k outs) < uint (left - word_of_int x)"
         "\<exists>msg. last (calls w') = Log_write ''send'' msg (host (state (call (Record_send left) w)))"
      by blast
    have u: "uint (left - word_of_int x) = uint left - x" using True sane(1) by (rule uint_sub_sane)
    show ?thesis
      using k True u by (intro exI [of _ "Suc k"]) (simp add: call_def)
  qed
qed

lemma tls_write_loop_returns:
  "engine_sane outs left \<Longrightarrow> unat left \<le> length outs \<Longrightarrow> tls_write_loop outs left w \<noteq> None"
proof (induction outs arbitrary: left w)
  case Nil
  then show ?case by (simp add: unat_eq_zero)
next
  case (Cons x outs)
  show ?case
  proof (cases "left \<noteq> 0 \<and> 0 < x")
    case False
    then show ?thesis by (auto simp: Let_def)
  next
    case True
    have sane: "x \<le> uint left" "engine_sane outs (left - word_of_int x)"
      using Cons.prems(1) True by simp_all
    have u: "uint (left - word_of_int x) = uint left - x" using True sane(1) by (intro uint_sub_sane) simp_all
    have "uint (left - word_of_int x) < uint left" using u True by simp
    then have "unat (left - word_of_int x) < unat left"
      by (simp flip: word_less_def add: word_less_nat_alt)
    then have "unat (left - word_of_int x) \<le> length outs" using Cons.prems(2) by simp
    from Cons.IH [OF sane(2) this] show ?thesis using True by (simp add: Let_def)
  qed
qed


text \<open>
  C8, as amended.  Let \<open>gnutls_record_send\<close> never report more than it was asked to send.
  Then \<open>tls_write\<close> returns once it has had as many answers as \<open>len\<close> has bytes, and what
  it returns is one of two things.  Either the writes it issued all sent something and sent
  \<open>len\<close> bytes in total, nothing was logged, and the value returned is \<open>len\<close>, or \<open>INT_MAX\<close>
  when \<open>len\<close> is larger than that.  Or a write returned a negative or a zero length before
  \<open>len\<close> bytes were sent, the error was logged, and the value returned is \<open>-1\<close>.
\<close>

theorem tls_write_total:
  assumes "engine_sane outs len"
  shows "(unat len \<le> length outs \<longrightarrow> tls_write outs len w \<noteq> None) \<and>
         (\<forall>ret w'. tls_write outs len w = Some (ret, w') \<longrightarrow>
            (ret = (if uint len > INT_MAX then INT_MAX else uint len) \<and>
             (\<exists>k \<le> length outs. (\<forall>x \<in> set (take k outs). 0 < x) \<and>
                sum_list (take k outs) = uint len) \<and>
             set (calls w') \<subseteq> set (calls w) \<union> range Record_send) \<or>
            (ret = - 1 \<and>
             (\<exists>k < length outs. (\<forall>x \<in> set (take k outs). 0 < x) \<and> outs ! k \<le> 0 \<and>
                sum_list (take k outs) < uint len) \<and>
             (\<exists>msg. last (calls w') = Log_write ''send'' msg (host (state w)))))"
proof (intro conjI impI allI)
  assume "unat len \<le> length outs"
  with assms have "tls_write_loop outs len w \<noteq> None" by (rule tls_write_loop_returns)
  then show "tls_write outs len w \<noteq> None"
    by (auto simp: tls_write_def split: option.split bool.split)
next
  fix ret w'
  assume r: "tls_write outs len w = Some (ret, w')"
  obtain ok w'' where l: "tls_write_loop outs len w = Some (ok, w'')"
    using r by (cases "tls_write_loop outs len w") (auto simp: tls_write_def)
  have w: "w'' = w'" using r l by (cases ok) (simp_all add: tls_write_def)
  show "(ret = (if uint len > INT_MAX then INT_MAX else uint len) \<and>
             (\<exists>k \<le> length outs. (\<forall>x \<in> set (take k outs). 0 < x) \<and>
                sum_list (take k outs) = uint len) \<and>
             set (calls w') \<subseteq> set (calls w) \<union> range Record_send) \<or>
            (ret = - 1 \<and>
             (\<exists>k < length outs. (\<forall>x \<in> set (take k outs). 0 < x) \<and> outs ! k \<le> 0 \<and>
                sum_list (take k outs) < uint len) \<and>
             (\<exists>msg. last (calls w') = Log_write ''send'' msg (host (state w))))"
  proof (cases ok)
    case True
    then have l': "tls_write_loop outs len w = Some (True, w')" using l w by simp
    have "ret = (if uint len > INT_MAX then INT_MAX else uint len)"
      using r l' by (simp add: tls_write_def)
    moreover note tls_write_loop_success [OF assms l']
    ultimately show ?thesis by (intro disjI1 conjI) blast+
  next
    case False
    then have l': "tls_write_loop outs len w = Some (False, w')" using l w by simp
    have "ret = - 1" using r l' by (simp add: tls_write_def)
    moreover note tls_write_loop_failure [OF assms l']
    ultimately show ?thesis by (intro disjI2 conjI) blast+
  qed
qed

theorem tls_write_total_witness:
  "engine_sane [1, 1, 1] 3 \<and> unat (3 :: 64 word) \<le> length [1, 1, 1 :: int] \<and>
   map_option fst (tls_write [1, 1, 1] 3 world_init) = Some 3 \<and>
   engine_sane [2, 0] 3 \<and>
   map_option fst (tls_write [2, 0] 3 world_init) = Some (- 1)"
proof -
  have a: "engine_sane [1, 1, 1] 3" by simp
  have b: "engine_sane [2, 0] 3" by simp
  have c: "unat (3 :: 64 word) \<le> length [1, 1, 1 :: int]" by simp
  have d: "map_option fst (tls_write [1, 1, 1] 3 world_init) = Some 3"
    by (simp add: tls_write_def Let_def INT_MAX_def)
  have e: "map_option fst (tls_write [2, 0] 3 world_init) = Some (- 1)"
    by (simp add: tls_write_def Let_def)
  have "tls_write [1, 1, 1] 3 world_init \<noteq> None"
    using tls_write_total [OF a, of world_init] c by blast
  moreover have "tls_write [2, 0] 3 world_init = Some (ret, w') \<longrightarrow> ret = 3 \<or> ret = - 1" for ret w'
    using tls_write_total [OF b, of world_init] by (auto simp: INT_MAX_def)
  ultimately show ?thesis using a b c d e by simp
qed


text \<open>
  C8 as stated fails where \<open>len\<close> exceeds \<open>INT_MAX\<close>: all 2147483648 bytes are sent, in
  131072 writes of 16384 bytes, and the value returned is 2147483647.
\<close>

lemma chunks_sane: "0 < c \<Longrightarrow> uint left = int k * c \<Longrightarrow> engine_sane (replicate k c) left"
proof (induction k arbitrary: left)
  case 0
  then show ?case by simp
next
  case (Suc k)
  have le: "c \<le> uint left" using Suc.prems by (simp add: algebra_simps)
  have "uint (left - word_of_int c) = uint left - c" using Suc.prems(1) le by (rule uint_sub_sane)
  then have "uint (left - word_of_int c) = int k * c" using Suc.prems(2) by (simp add: algebra_simps)
  with Suc.prems(1) have "engine_sane (replicate k c) (left - word_of_int c)" by (rule Suc.IH)
  then show ?case using le by simp
qed

lemma chunks_written:
  "0 < c \<Longrightarrow> uint left = int k * c \<Longrightarrow>
   map_option fst (tls_write_loop (replicate k c) left w) = Some True"
proof (induction k arbitrary: left w)
  case 0
  then show ?case by (simp add: uint_0_iff)
next
  case (Suc k)
  have le: "c \<le> uint left" using Suc.prems by (simp add: algebra_simps)
  have nz: "left \<noteq> 0" using Suc.prems le by auto
  have "uint (left - word_of_int c) = uint left - c" using Suc.prems(1) le by (rule uint_sub_sane)
  then have "uint (left - word_of_int c) = int k * c" using Suc.prems(2) by (simp add: algebra_simps)
  with Suc.prems(1) have
    "map_option fst (tls_write_loop (replicate k c) (left - word_of_int c) (call (Record_send left) w)) = Some True"
    by (rule Suc.IH)
  then show ?case using nz Suc.prems(1) by (simp add: Let_def)
qed

lemma tls_write_of_loop:
  "map_option fst (tls_write_loop outs len w) = Some True \<Longrightarrow>
   map_option fst (tls_write outs len w) = Some (if uint len > INT_MAX then INT_MAX else uint len)"
  by (auto simp: tls_write_def split: option.splits bool.splits)

theorem tls_write_clamped_counterexample:
  "engine_sane chunks_2GiB 2147483648 \<and>
   sum_list chunks_2GiB = uint (2147483648 :: 64 word) \<and>
   map_option fst (tls_write chunks_2GiB 2147483648 world_init) = Some 2147483647 \<and>
   (2147483647 :: int) \<noteq> uint (2147483648 :: 64 word)"
proof -
  have u: "uint (2147483648 :: 64 word) = int 131072 * 16384" by simp
  have c: "(0 :: int) < 16384" by simp
  have a: "engine_sane chunks_2GiB 2147483648"
    unfolding chunks_2GiB_def using c u by (rule chunks_sane)
  have "map_option fst (tls_write_loop chunks_2GiB 2147483648 world_init) = Some True"
    unfolding chunks_2GiB_def using c u by (rule chunks_written)
  then have "map_option fst (tls_write chunks_2GiB 2147483648 world_init) =
      Some (if uint (2147483648 :: 64 word) > INT_MAX then INT_MAX else uint (2147483648 :: 64 word))"
    by (rule tls_write_of_loop)
  moreover have "(if uint (2147483648 :: 64 word) > INT_MAX then INT_MAX
      else uint (2147483648 :: 64 word)) = 2147483647"
    by (simp add: INT_MAX_def)
  ultimately have b: "map_option fst (tls_write chunks_2GiB 2147483648 world_init) = Some 2147483647"
    by (simp only:)
  have "sum_list (replicate 131072 (16384 :: int)) = of_nat 131072 * 16384"
    by (rule sum_list_replicate)
  then have s: "sum_list chunks_2GiB = uint (2147483648 :: 64 word)"
    unfolding chunks_2GiB_def by (simp only: u)
  have d: "(2147483647 :: int) \<noteq> uint (2147483648 :: 64 word)" by simp
  show ?thesis using a b s d by blast
qed


subsection \<open>init\_server\_dh\<close>

lemmas dh_defs = init_server_dh_def dh_regenerate_def exim_gnutls_err_check_def tls_error_def
  call_def Let_def cache_filename_def new_calls_def

lemma init_server_dh_absent:
  assumes "dh_setup_ok env" and "open_cache env = Open_failed ENOENT" and "regenerate_ok env"
  shows "fst (init_server_dh env w) = OK"
    and "new_calls w (snd (init_server_dh env w)) =
           [Dh_params_init, Sec_param_to_pk_bits, Open_cache, Mkstemp, Fchown,
            Dh_params_generate2 (sec_param_to_pk_bits env),
            Dh_params_export_pkcs3, Dh_params_export_pkcs3,
            Write_to_fd (snd (dh_params_export_pkcs3_sizing env)), Write_to_fd 1,
            Close_fd, Rename_cache]"
  using assms
  by (auto simp: dh_defs dh_setup_ok_def regenerate_ok_def
      GNUTLS_E_SUCCESS_def GNUTLS_E_SHORT_MEMORY_BUFFER_def split: prod.splits)

lemma init_server_dh_unreadable:
  assumes "dh_setup_ok env" and "cache_unreadable env"
  shows "fst (init_server_dh env w) = DEFER"
    and "\<not> regenerated w (snd (init_server_dh env w))"
  using assms
  by (auto simp: dh_defs dh_setup_ok_def cache_unreadable_def regenerated_def
      GNUTLS_E_SUCCESS_def split: prod.splits option.splits)

lemma init_server_dh_cached:
  assumes "dh_setup_ok env" and "open_cache env = Opened"
    and "fstat_cache env = Some (True, sz)" and "fdopen_cache env" and "malloc_cache env"
    and "fread_cache env \<noteq> 0" and "dh_params_import_pkcs3 env = GNUTLS_E_SUCCESS"
  shows "fst (init_server_dh env w) = OK"
    and "\<not> regenerated w (snd (init_server_dh env w))"
  using assms
  by (auto simp: dh_defs dh_setup_ok_def regenerated_def GNUTLS_E_SUCCESS_def)

lemma init_server_dh_unparsable:
  assumes "dh_setup_ok env" and "open_cache env = Opened"
    and "fstat_cache env = Some (True, sz)" and "fdopen_cache env" and "malloc_cache env"
    and "fread_cache env \<noteq> 0" and "dh_params_import_pkcs3 env \<noteq> GNUTLS_E_SUCCESS"
  shows "fst (init_server_dh env w) = DEFER"
    and "\<not> regenerated w (snd (init_server_dh env w))"
  using assms
  by (auto simp: dh_defs dh_setup_ok_def regenerated_def GNUTLS_E_SUCCESS_def)


text \<open>
  C1, as amended.  Let the steps before the cache file is opened succeed.  When the cache
  file does not exist (\<open>ENOENT\<close>) and every step of regeneration succeeds, \<open>init_server_dh\<close>
  returns \<open>OK\<close> after exactly these calls: it creates the temporary file, generates
  parameters of the bit strength asked for, exports them, writes them and a newline to the
  temporary file, closes it and renames it to the cache file.  When the cache file exists
  and \<open>fstat\<close> fails, or it is not a regular file, or \<open>fdopen\<close>, \<open>malloc\<close> or \<open>fread\<close> fails,
  \<open>init_server_dh\<close> returns \<open>DEFER\<close> and takes no step of regeneration.
\<close>

theorem init_server_dh_cache:
  assumes "dh_setup_ok env"
  shows "(open_cache env = Open_failed ENOENT \<and> regenerate_ok env \<longrightarrow>
            fst (init_server_dh env w) = OK \<and>
            new_calls w (snd (init_server_dh env w)) =
              [Dh_params_init, Sec_param_to_pk_bits, Open_cache, Mkstemp, Fchown,
               Dh_params_generate2 (sec_param_to_pk_bits env),
               Dh_params_export_pkcs3, Dh_params_export_pkcs3,
               Write_to_fd (snd (dh_params_export_pkcs3_sizing env)), Write_to_fd 1,
               Close_fd, Rename_cache]) \<and>
         (cache_unreadable env \<longrightarrow>
            fst (init_server_dh env w) = DEFER \<and> \<not> regenerated w (snd (init_server_dh env w)))"
  using init_server_dh_absent [OF assms, of w] init_server_dh_unreadable [OF assms, of w]
  by blast

lemma dh_setup_ok_fresh: "dh_setup_ok dh_env_fresh"
  by code_simp

lemma dh_setup_ok_empty_cache: "dh_setup_ok dh_env_empty_cache"
  by code_simp

theorem init_server_dh_cache_witness:
  "dh_setup_ok dh_env_fresh \<and> open_cache dh_env_fresh = Open_failed ENOENT \<and>
   regenerate_ok dh_env_fresh \<and>
   fst (init_server_dh dh_env_fresh world_init) = OK \<and>
   new_calls world_init (snd (init_server_dh dh_env_fresh world_init)) =
     [Dh_params_init, Sec_param_to_pk_bits, Open_cache, Mkstemp, Fchown,
      Dh_params_generate2 2432, Dh_params_export_pkcs3, Dh_params_export_pkcs3,
      Write_to_fd 769, Write_to_fd 1, Close_fd, Rename_cache] \<and>
   dh_setup_ok dh_env_empty_cache \<and> cache_unreadable dh_env_empty_cache \<and>
   fst (init_server_dh dh_env_empty_cache world_init) = DEFER"
proof -
  have a: "open_cache dh_env_fresh = Open_failed ENOENT" by (simp add: dh_env_fresh_def ENOENT_def)
  have b: "regenerate_ok dh_env_fresh" by code_simp
  have c: "cache_unreadable dh_env_empty_cache"
    by (simp add: cache_unreadable_def dh_env_empty_cache_def)
  have d: "sec_param_to_pk_bits dh_env_fresh = 2432"
    "snd (dh_params_export_pkcs3_sizing dh_env_fresh) = 769"
    by (simp_all add: dh_env_fresh_def)
  have e: "fst (init_server_dh dh_env_fresh world_init) = OK \<and>
      new_calls world_init (snd (init_server_dh dh_env_fresh world_init)) =
        [Dh_params_init, Sec_param_to_pk_bits, Open_cache, Mkstemp, Fchown,
         Dh_params_generate2 (sec_param_to_pk_bits dh_env_fresh),
         Dh_params_export_pkcs3, Dh_params_export_pkcs3,
         Write_to_fd (snd (dh_params_export_pkcs3_sizing dh_env_fresh)), Write_to_fd 1,
         Close_fd, Rename_cache]"
    using a b init_server_dh_cache [OF dh_setup_ok_fresh, of world_init] by blast
  have f: "fst (init_server_dh dh_env_empty_cache world_init) = DEFER"
    using c init_server_dh_cache [OF dh_setup_ok_empty_cache, of world_init] by blast
  show ?thesis
    using a b c e f dh_setup_ok_fresh dh_setup_ok_empty_cache unfolding d by blast
qed

text \<open>
  C1 as stated fails on a cache file of length 0: \<open>fread\<close> returns 0, and
  \<open>init_server_dh\<close> returns \<open>DEFER\<close> without regenerating.
\<close>

theorem init_server_dh_empty_cache_counterexample:
  "open_cache dh_env_empty_cache = Opened \<and>
   fstat_cache dh_env_empty_cache = Some (True, 0) \<and>
   fread_cache dh_env_empty_cache = 0 \<and>
   fst (init_server_dh dh_env_empty_cache world_init) = DEFER \<and>
   DEFER \<noteq> OK \<and>
   new_calls world_init (snd (init_server_dh dh_env_empty_cache world_init)) =
     [Dh_params_init, Sec_param_to_pk_bits, Open_cache, Fstat_cache, Fdopen_cache,
      Fread_cache, Fclose_cache, Log_write ''fread failed'' Strerror_errno None] \<and>
   \<not> regenerated world_init (snd (init_server_dh dh_env_empty_cache world_init))"
proof -
  have c: "cache_unreadable dh_env_empty_cache"
    by (simp add: cache_unreadable_def dh_env_empty_cache_def)
  have "fst (init_server_dh dh_env_empty_cache world_init) = DEFER"
    and "\<not> regenerated world_init (snd (init_server_dh dh_env_empty_cache world_init))"
    using init_server_dh_unreadable [OF dh_setup_ok_empty_cache c, of world_init] by blast+
  moreover have "new_calls world_init (snd (init_server_dh dh_env_empty_cache world_init)) =
     [Dh_params_init, Sec_param_to_pk_bits, Open_cache, Fstat_cache, Fdopen_cache,
      Fread_cache, Fclose_cache, Log_write ''fread failed'' Strerror_errno None]"
    by code_simp
  ultimately show ?thesis by (simp add: dh_env_empty_cache_def DEFER_def OK_def)
qed

text \<open>
  A cache file that is read but that \<open>gnutls_dh_params_import_pkcs3\<close> rejects: the macro
  \<open>exim_gnutls_err_check\<close> returns \<open>DEFER\<close> there, so the block \<open>if (rc < 0)\<close>, which the
  comment above it describes as the place where unusable cached data are regenerated, is
  reached only when the file does not exist.
\<close>

lemma init_server_dh_unparsable_example:
  "fst (init_server_dh dh_env_unparsable_cache world_init) = DEFER \<and>
   \<not> regenerated world_init (snd (init_server_dh dh_env_unparsable_cache world_init))"
proof -
  have a: "dh_setup_ok dh_env_unparsable_cache" by code_simp
  show ?thesis
    using init_server_dh_unparsable [OF a, of 769 world_init]
    by (simp add: dh_env_unparsable_cache_def GNUTLS_E_SUCCESS_def)
qed


subsection \<open>tls\_expand\_session\_files\<close>

lemmas expand_defs = tls_error_def call_def upd_state_def exim_gnutls_err_check_def
  expand_check_tlsvar_def nonempty_def Let_def










text \<open>
  The later pass in which the function does not return: the certificate expands as
  before, so the keys are compared, and the new expansion of the key is \<open>NULL\<close>.
\<close>

lemma tls_expand_null_dereference_example:
  "tls_expand_session_files expand_env_forced_failure world_second_pass = Inl Null_dereference"
  by (simp add: tls_expand_session_files_def expand_defs compare_with_saved_def Ustrcmp_def
      expand_env_forced_failure_def expand_env_directory_def world_second_pass_def
      world_init_def exim_gnutls_state_init_def GNUTLS_E_SUCCESS_def)

end
